theory Spec2Isabelle
  imports Complex_Main
begin

section \<open>Conventions of the embedding\<close>

text \<open>
  The notebooks compute with Python and NumPy floating-point numbers. Finite values are
  modelled as \<^typ>\<open>real\<close> with exact arithmetic; the non-finite results that NumPy
  returns instead of raising (\<open>inf\<close>, \<open>nan\<close>) are constructors of \<open>npfloat\<close>
  where a function of the notebooks can produce them. Exceptions of Python are values
  of \<open>error\<close>. NumPy arrays are lists; an array allocated by \<open>np.zeros\<close> and
  filled by index is a list updated with \<open>xs[i := v]\<close>. The rounding of binary64
  arithmetic is modelled where a property is about it (the section on the grid in
  binary64 arithmetic); everywhere else a finite result is the exact one.
\<close>

datatype error = ZeroDivisionError | ValueError | NameError | OverflowError

datatype npfloat = Fin real | PInf | NInf | NaN

text \<open>
  NumPy's arithmetic on \<open>float64\<close> follows IEEE 754 for the special values: \<open>nan\<close>
  propagates, \<open>inf - inf\<close>, \<open>0 * inf\<close>, \<open>0 / 0\<close> and \<open>inf / inf\<close> are \<open>nan\<close>, a
  non-zero finite value divided by zero is an infinity, and none of them raises (NumPy
  prints a \<open>RuntimeWarning\<close>). Zero is read as \<open>+0.0\<close>: the sign of zero is not
  modelled. \<open>np_sum\<close> adds from the left, starting at \<open>0.0\<close>.
\<close>

fun np_neg :: "npfloat \<Rightarrow> npfloat" where
  "np_neg (Fin x) = Fin (- x)"
| "np_neg PInf = NInf"
| "np_neg NInf = PInf"
| "np_neg NaN = NaN"

fun np_add :: "npfloat \<Rightarrow> npfloat \<Rightarrow> npfloat" where
  "np_add NaN y = NaN"
| "np_add x NaN = NaN"
| "np_add (Fin a) (Fin b) = Fin (a + b)"
| "np_add PInf NInf = NaN"
| "np_add NInf PInf = NaN"
| "np_add PInf y = PInf"
| "np_add x PInf = PInf"
| "np_add NInf y = NInf"
| "np_add x NInf = NInf"

definition np_sub :: "npfloat \<Rightarrow> npfloat \<Rightarrow> npfloat" where
  "np_sub x y = np_add x (np_neg y)"

fun np_mul :: "npfloat \<Rightarrow> npfloat \<Rightarrow> npfloat" where
  "np_mul NaN y = NaN"
| "np_mul x NaN = NaN"
| "np_mul (Fin a) (Fin b) = Fin (a * b)"
| "np_mul (Fin a) PInf = (if a > 0 then PInf else if a < 0 then NInf else NaN)"
| "np_mul (Fin a) NInf = (if a > 0 then NInf else if a < 0 then PInf else NaN)"
| "np_mul PInf (Fin b) = (if b > 0 then PInf else if b < 0 then NInf else NaN)"
| "np_mul NInf (Fin b) = (if b > 0 then NInf else if b < 0 then PInf else NaN)"
| "np_mul PInf PInf = PInf"
| "np_mul PInf NInf = NInf"
| "np_mul NInf PInf = NInf"
| "np_mul NInf NInf = PInf"

fun np_div :: "npfloat \<Rightarrow> npfloat \<Rightarrow> npfloat" where
  "np_div NaN y = NaN"
| "np_div x NaN = NaN"
| "np_div (Fin a) (Fin b) =
     (if b \<noteq> 0 then Fin (a / b)
      else if a > 0 then PInf else if a < 0 then NInf else NaN)"
| "np_div (Fin a) PInf = Fin 0"
| "np_div (Fin a) NInf = Fin 0"
| "np_div PInf (Fin b) = (if b \<ge> 0 then PInf else NInf)"
| "np_div NInf (Fin b) = (if b \<ge> 0 then NInf else PInf)"
| "np_div PInf y = NaN"
| "np_div NInf y = NaN"

fun np_exp :: "npfloat \<Rightarrow> npfloat" where
  "np_exp (Fin x) = Fin (exp x)"
| "np_exp PInf = PInf"
| "np_exp NInf = Fin 0"
| "np_exp NaN = NaN"

fun np_log :: "npfloat \<Rightarrow> npfloat" where
  "np_log (Fin x) = (if x > 0 then Fin (ln x) else if x = 0 then NInf else NaN)"
| "np_log PInf = PInf"
| "np_log NInf = NaN"
| "np_log NaN = NaN"

fun np_sqrt :: "npfloat \<Rightarrow> npfloat" where
  "np_sqrt (Fin x) = (if x \<ge> 0 then Fin (sqrt x) else NaN)"
| "np_sqrt PInf = PInf"
| "np_sqrt NInf = NaN"
| "np_sqrt NaN = NaN"

definition np_square :: "npfloat \<Rightarrow> npfloat" where
  "np_square x = np_mul x x"

definition np_sum :: "npfloat list \<Rightarrow> npfloat" where
  "np_sum xs = foldl np_add (Fin 0) xs"


section \<open>The parabola models (LikelihoodFit)\<close>

text \<open>
  \<^verbatim>\<open>
  def func_para(x, minval, minpos, quadratic) :
      return minval + quadratic*(x-minpos)**2
  \<close>
\<close>

definition func_para :: "real \<Rightarrow> real \<Rightarrow> real \<Rightarrow> real \<Rightarrow> real" where
  "func_para x minval minpos quadratic = minval + quadratic * (x - minpos)\<^sup>2"

text \<open>
  \<^verbatim>\<open>
  def func_asympara(X, minval, minpos, quadlow, quadhigh):
      return_arr = []
      for x in X:
          if (x < minpos):
              return_arr.append(minval + quadlow*(x-minpos)**2)
          else :
              return_arr.append(minval + quadhigh*(x-minpos)**2)
      return np.array(return_arr)
  \<close>
  The loop over \<open>X\<close> is a recursion that carries \<open>return_arr\<close>.
\<close>

fun asympara_loop ::
  "real list \<Rightarrow> real \<Rightarrow> real \<Rightarrow> real \<Rightarrow> real \<Rightarrow> real list \<Rightarrow> real list" where
  "asympara_loop [] minval minpos quadlow quadhigh return_arr = return_arr"
| "asympara_loop (x # X) minval minpos quadlow quadhigh return_arr =
     (if x < minpos
      then asympara_loop X minval minpos quadlow quadhigh
             (return_arr @ [minval + quadlow * (x - minpos)\<^sup>2])
      else asympara_loop X minval minpos quadlow quadhigh
             (return_arr @ [minval + quadhigh * (x - minpos)\<^sup>2]))"

definition func_asympara :: "real list \<Rightarrow> real \<Rightarrow> real \<Rightarrow> real \<Rightarrow> real \<Rightarrow> real list" where
  "func_asympara X minval minpos quadlow quadhigh =
     asympara_loop X minval minpos quadlow quadhigh []"

section \<open>Validation of the correlation (error propagation notebook)\<close>

text \<open>
  \<^verbatim>\<open>
  if not (-1.0 <= rho12 <= 1.0):
      raise ValueError(f"Correlation factor not in interval [-1,1], as it is {rho12:6.2f}")
  \<close>
  The cell stands directly after the cell that assigns \<open>mu1, sig1, mu2, sig2, rho12\<close>
  and before every cell that computes. The cells after it are the parameter \<open>later\<close>,
  a transformer of the notebook's state \<open>s\<close>; an exception stops the run and leaves the
  state as it was when it was raised.
\<close>

definition check_rho12 :: "real \<Rightarrow> error option" where
  "check_rho12 rho12 = (if \<not> (- 1 \<le> rho12 \<and> rho12 \<le> 1) then Some ValueError else None)"

definition error_propagation :: "(real \<Rightarrow> 's \<Rightarrow> 's) \<Rightarrow> real \<Rightarrow> 's \<Rightarrow> error option \<times> 's" where
  "error_propagation later rho12 s =
     (case check_rho12 rho12 of
        Some e \<Rightarrow> (Some e, s)
      | None \<Rightarrow> (None, later rho12 s))"

section \<open>The chi-square animation (Chi2\_minimization\_animation)\<close>

text \<open>
  \<^verbatim>\<open>
  def linear(x, a):
      y = a*x
      return y

  def calc_chi2(yhat, y, sy):
      chi2 = np.sum((yhat-y)**2 / sy**2)
      return chi2
  \<close>
  The arguments are arrays of one length (\<open>y\<close> is computed from \<open>x\<close> elementwise and
  \<open>sy = 1 * np.ones_like(y)\<close>), so the elementwise operations are a \<open>zip\<close>.
\<close>

definition linear_fn :: "real list \<Rightarrow> real \<Rightarrow> real list" where
  "linear_fn x a = map (\<lambda>xi. a * xi) x"

definition calc_chi2 :: "real list \<Rightarrow> real list \<Rightarrow> real list \<Rightarrow> real" where
  "calc_chi2 yhat y sy =
     sum_list (map (\<lambda>(yh, yi, si). (yh - yi)\<^sup>2 / si\<^sup>2) (zip yhat (zip y sy)))"

definition ones_like :: "real list \<Rightarrow> real list" where
  "ones_like y = map (\<lambda>_. 1) y"

text \<open>\<^verbatim>\<open>sy = 1 * np.ones_like(y)\<close>\<close>

definition sy_data :: "real list \<Rightarrow> real list" where
  "sy_data y = map (\<lambda>one. 1 * one) (ones_like y)"

text \<open>
  The two global lists \<open>p0_list\<close> and \<open>chi2_list\<close> are the state; both start empty.
  \<^verbatim>\<open>
  def animate_linear_chi2_fit(p0=0):
      yhat = linear(x, p0)
      chi2 = calc_chi2(yhat, y, sy)
      p0_list.append(p0)
      chi2_list.append(chi2)
      ... plotting ...
  \<close>
\<close>

record anim_state =
  p0_list :: "real list"
  chi2_list :: "real list"

definition anim_init :: anim_state where
  "anim_init = \<lparr>p0_list = [], chi2_list = []\<rparr>"

definition animate_linear_chi2_fit ::
  "real list \<Rightarrow> real list \<Rightarrow> real \<Rightarrow> anim_state \<Rightarrow> anim_state" where
  "animate_linear_chi2_fit x y p0 st =
     (let sy = sy_data y;
          yhat = linear_fn x p0;
          chi2 = calc_chi2 yhat y sy
      in st\<lparr>p0_list := p0_list st @ [p0], chi2_list := chi2_list st @ [chi2]\<rparr>)"

text \<open>A sequence of calls, one per value the slider takes, in order.\<close>

definition animate_calls :: "real list \<Rightarrow> real list \<Rightarrow> real list \<Rightarrow> anim_state \<Rightarrow> anim_state" where
  "animate_calls x y ps st = foldl (\<lambda>s p0. animate_linear_chi2_fit x y p0 s) st ps"

section \<open>The goodness-of-fit evaluators (LikelihoodFit)\<close>

text \<open>
  \<open>scipy.stats.poisson.pmf(k, mu)\<close> is a function of the SciPy library: for \<open>mu \<ge> 0\<close>
  it is \<open>exp(-mu) * mu**k / k!\<close> (so \<open>pmf(0, 0) = 1\<close> and \<open>pmf(k, 0) = 0\<close> for
  \<open>k > 0\<close>), and outside the parameter domain \<open>mu \<ge> 0\<close> it returns \<open>nan\<close>. At
  \<open>mu = inf\<close> it evaluates \<open>exp(k*log(mu) - log(k!) - mu)\<close>.
\<close>

fun poisson_pmf :: "nat \<Rightarrow> npfloat \<Rightarrow> npfloat" where
  "poisson_pmf k (Fin mu) = (if mu < 0 then NaN else Fin (exp (- mu) * mu ^ k / fact k))"
| "poisson_pmf k PInf = (if k = 0 then Fin 0 else NaN)"
| "poisson_pmf k NInf = NaN"
| "poisson_pmf k NaN = NaN"

text \<open>
  The loop over the bins of the histogram (\<open>yExp, xExp_edges = np.histogram(t, ...)\<close>,
  with \<open>len(xExp_edges) = len(yExp) + 1\<close> and \<open>Nbins = len(yExp)\<close>), for one hypothesis
  \<open>tau_hypo\<close>:
  \<^verbatim>\<open>
  chi2[itau] = 0.0
  bllh[itau] = 0.0
  for ibin in range (Nbins) :
      xlow_bin = xExp_edges[ibin]
      xhigh_bin = xExp_edges[ibin+1]
      nexp = Ntimes * (np.exp(-xlow_bin/tau_hypo) - np.exp(-xhigh_bin/tau_hypo))
      nobs = yExp[ibin]
      if (nobs > 0):
          chi2[itau] += (nobs-nexp)**2 / nobs
      bllh[itau] += -2.0*np.log(stats.poisson.pmf(int(nobs), nexp))
  \<close>
  The accumulator is the pair \<open>(chi2[itau], bllh[itau])\<close>.
\<close>

definition nexp :: "nat \<Rightarrow> real list \<Rightarrow> real \<Rightarrow> nat \<Rightarrow> npfloat" where
  "nexp Ntimes xExp_edges tau_hypo ibin =
     (let xlow_bin = xExp_edges ! ibin;
          xhigh_bin = xExp_edges ! (ibin + 1)
      in np_mul (Fin (real Ntimes))
           (np_sub (np_exp (np_div (Fin (- xlow_bin)) (Fin tau_hypo)))
                   (np_exp (np_div (Fin (- xhigh_bin)) (Fin tau_hypo)))))"

definition chi2_term :: "nat \<Rightarrow> npfloat \<Rightarrow> npfloat" where
  "chi2_term nobs ne = np_div (np_square (np_sub (Fin (real nobs)) ne)) (Fin (real nobs))"

definition bllh_term :: "nat \<Rightarrow> npfloat \<Rightarrow> npfloat" where
  "bllh_term nobs ne = np_mul (Fin (- 2)) (np_log (poisson_pmf nobs ne))"

definition bin_body ::
  "nat \<Rightarrow> real list \<Rightarrow> nat list \<Rightarrow> real \<Rightarrow> npfloat \<times> npfloat \<Rightarrow> nat \<Rightarrow> npfloat \<times> npfloat" where
  "bin_body Ntimes xExp_edges yExp tau_hypo acc ibin =
     (let ne = nexp Ntimes xExp_edges tau_hypo ibin;
          nobs = yExp ! ibin;
          chi2_itau = (if nobs > 0 then np_add (fst acc) (chi2_term nobs ne) else fst acc);
          bllh_itau = np_add (snd acc) (bllh_term nobs ne)
      in (chi2_itau, bllh_itau))"

definition bin_loop ::
  "nat \<Rightarrow> real list \<Rightarrow> nat list \<Rightarrow> real \<Rightarrow> nat \<Rightarrow> npfloat \<times> npfloat" where
  "bin_loop Ntimes xExp_edges yExp tau_hypo Nbins =
     foldl (bin_body Ntimes xExp_edges yExp tau_hypo) (Fin 0, Fin 0) [0..<Nbins]"


definition bllh_evaluator :: "nat \<Rightarrow> real list \<Rightarrow> nat list \<Rightarrow> real \<Rightarrow> npfloat" where
  "bllh_evaluator Ntimes xExp_edges yExp tau_hypo =
     snd (bin_loop Ntimes xExp_edges yExp tau_hypo (length yExp))"


section \<open>The chi-square of the Gaussian fit (TheChiSquareMiracle)\<close>

text \<open>
  \<^verbatim>\<open>
  binwidth = (xmax-xmin)/Nbins

  def func_gauss(x, N, mu, sigma):
      z = (x - mu) / sigma
      return N * binwidth / np.sqrt(2 * np.pi) / sigma * np.exp(-0.5 * z**2)
  \<close>
\<close>

definition func_gauss :: "real \<Rightarrow> real \<Rightarrow> real \<Rightarrow> real \<Rightarrow> real \<Rightarrow> npfloat" where
  "func_gauss binwidth x N mu sigma =
     (let z = np_div (Fin (x - mu)) (Fin sigma)
      in np_mul (np_div (np_div (Fin (N * binwidth)) (np_sqrt (Fin (2 * pi)))) (Fin sigma))
                (np_exp (np_mul (Fin (- (1 / 2))) (np_square z))))"

text \<open>
  The data are the bins of the histogram with a non-zero count:
  \<^verbatim>\<open>
  counts, bin_edges = np.histogram(x_all, bins=Nbins, range=(xmin, xmax), density=False)
  x = 0.5*(bin_edges[:-1] + bin_edges[1:])[counts>0]
  y = counts[counts>0]
  sy = np.sqrt(y)

  def chi2_owncalc(N, mu, sigma) :
      y_fit = func_gauss(x, N, mu, sigma)
      chi2 = np.sum(((y - y_fit) / sy)**2)
      return chi2
  \<close>
\<close>

definition nonzero_bins :: "nat list \<Rightarrow> nat list" where
  "nonzero_bins counts = filter (\<lambda>i. counts ! i > 0) [0..<length counts]"

definition x_hist :: "real list \<Rightarrow> nat list \<Rightarrow> real list" where
  "x_hist bin_edges counts =
     map (\<lambda>i. 1 / 2 * (bin_edges ! i + bin_edges ! (i + 1))) (nonzero_bins counts)"

definition y_hist :: "nat list \<Rightarrow> nat list" where
  "y_hist counts = map (\<lambda>i. counts ! i) (nonzero_bins counts)"

definition sy_hist :: "nat list \<Rightarrow> real list" where
  "sy_hist counts = map (\<lambda>y. sqrt (real y)) (y_hist counts)"

definition chi2_owncalc ::
  "real \<Rightarrow> real list \<Rightarrow> nat list \<Rightarrow> real \<Rightarrow> real \<Rightarrow> real \<Rightarrow> npfloat" where
  "chi2_owncalc binwidth bin_edges counts N mu sigma =
     np_sum (map (\<lambda>(xi, yi, si).
                    np_square (np_div (np_sub (Fin (real yi)) (func_gauss binwidth xi N mu sigma))
                                      (Fin si)))
               (zip (x_hist bin_edges counts) (zip (y_hist counts) (sy_hist counts))))"

section \<open>Uncertainty from the curvature (LikelihoodFit)\<close>

text \<open>
  \<^verbatim>\<open>err = 1.0 / np.sqrt(quadratic)\<close>
  where \<open>quadratic\<close> is the fitted curvature, a finite float.
\<close>

definition err :: "real \<Rightarrow> npfloat" where
  "err quadratic = np_div (Fin 1) (np_sqrt (Fin quadratic))"


section \<open>The grid scanner (LikelihoodFit)\<close>

text \<open>
  \<^verbatim>\<open>
  Ntau_steps = 50
  min_tau = 0.5
  max_tau = 1.5
  delta_tau = (max_tau-min_tau) / Ntau_steps
  \<close>
  The bounds and the step count are parameters here. Dividing a Python float by the
  integer zero raises \<open>ZeroDivisionError\<close>.
\<close>

definition delta_tau :: "real \<Rightarrow> real \<Rightarrow> nat \<Rightarrow> error + real" where
  "delta_tau min_tau max_tau Ntau_steps =
     (if Ntau_steps = 0 then Inl ZeroDivisionError
      else Inr ((max_tau - min_tau) / real Ntau_steps))"

text \<open>
  The scan fills the arrays \<open>tau\<close> and \<open>chi2\<close> (allocated by \<open>np.zeros(Ntau_steps+1)\<close>)
  and tracks the minimum. The notebook computes three scores in the loop body (\<open>chi2\<close>,
  \<open>bllh\<close>, \<open>ullh\<close>), each with its own array and its own pair \<open>minval, minpos\<close>
  handled by the same statements; the model has one score, computed by the parameter
  \<open>evaluator\<close>. The evaluator is a state transformer, so that each of its invocations
  is visible in \<open>ev_state\<close>.
  \<^verbatim>\<open>
  chi2_minval = 999999.9   # Minimal Chi2 value found
  chi2_minpos = 0.0        # Position (i.e. time) of minimal Chi2 value
  tau  = np.zeros(Ntau_steps+1)
  chi2 = np.zeros(Ntau_steps+1)
  \<close>
\<close>

record 's scan_state =
  tau :: "real list"
  chi2 :: "real list"
  chi2_minval :: real
  chi2_minpos :: real
  ev_state :: 's

definition chi2_minval_init :: real where
  "chi2_minval_init = 9999999 / 10"

definition chi2_minpos_init :: real where
  "chi2_minpos_init = 0"

definition scan_init :: "nat \<Rightarrow> 's \<Rightarrow> 's scan_state" where
  "scan_init Ntau_steps s0 =
     \<lparr>tau = replicate (Ntau_steps + 1) 0, chi2 = replicate (Ntau_steps + 1) 0,
      chi2_minval = chi2_minval_init, chi2_minpos = chi2_minpos_init, ev_state = s0\<rparr>"

text \<open>
  \<^verbatim>\<open>
  for itau in range(Ntau_steps+1):
      tau_hypo = min_tau + itau*delta_tau
      tau[itau] = tau_hypo
      chi2[itau] = ... the score of tau_hypo ...
      if (chi2[itau] < chi2_minval) :
          chi2_minval = chi2[itau]
          chi2_minpos = tau_hypo
  \<close>
\<close>

definition scan_body ::
  "(real \<Rightarrow> 's \<Rightarrow> real \<times> 's) \<Rightarrow> real \<Rightarrow> real \<Rightarrow> 's scan_state \<Rightarrow> nat \<Rightarrow> 's scan_state" where
  "scan_body evaluator min_tau delta st itau =
     (let tau_hypo = min_tau + real itau * delta;
          (v, s') = evaluator tau_hypo (ev_state st);
          st1 = st\<lparr>tau := (tau st)[itau := tau_hypo], chi2 := (chi2 st)[itau := v],
                   ev_state := s'\<rparr>
      in if chi2 st1 ! itau < chi2_minval st1
         then st1\<lparr>chi2_minval := chi2 st1 ! itau, chi2_minpos := tau_hypo\<rparr>
         else st1)"

definition scan_loop ::
  "(real \<Rightarrow> 's \<Rightarrow> real \<times> 's) \<Rightarrow> real \<Rightarrow> real \<Rightarrow> nat \<Rightarrow> 's \<Rightarrow> nat \<Rightarrow> 's scan_state" where
  "scan_loop evaluator min_tau delta Ntau_steps s0 n =
     foldl (scan_body evaluator min_tau delta) (scan_init Ntau_steps s0) [0..<n]"

definition grid_scan ::
  "(real \<Rightarrow> 's \<Rightarrow> real \<times> 's) \<Rightarrow> real \<Rightarrow> real \<Rightarrow> nat \<Rightarrow> 's \<Rightarrow> error + 's scan_state" where
  "grid_scan evaluator min_tau max_tau Ntau_steps s0 =
     (case delta_tau min_tau max_tau Ntau_steps of
        Inl e \<Rightarrow> Inl e
      | Inr delta \<Rightarrow> Inr (scan_loop evaluator min_tau delta Ntau_steps s0 (Ntau_steps + 1)))"

text \<open>
  A pure evaluator \<open>f\<close> whose invocations are logged: the state is the list of the
  hypothesis values it has been called with, in order.
\<close>

definition logged :: "(real \<Rightarrow> real) \<Rightarrow> real \<Rightarrow> real list \<Rightarrow> real \<times> real list" where
  "logged f t calls = (f t, calls @ [t])"

section \<open>The grid in binary64 arithmetic (LikelihoodFit)\<close>

text \<open>
  A Python float is an IEEE 754 binary64 number, and each arithmetic operation returns
  the exact result rounded to the nearest binary64 number, ties to the even significand.
  \<open>fl\<close> is that rounding of a real number. Below \<open>2^-1022\<close> in magnitude the binary64
  numbers are the multiples of \<open>2^-1074\<close> (zero and the subnormal numbers); from
  \<open>2^-1022\<close> on they are the numbers with 53 significant bits, and a result that rounds
  to \<open>2^1024\<close> or more in magnitude overflows to an infinity.

  \<open>round_scaled\<close> rounds a positive number to 53 significant bits whatever its
  exponent: it scales by powers of two (which that rounding commutes with) into
  \<open>[2^52, 2^53)\<close>, where the numbers with 53 significant bits are the integers. \<open>fl\<close>
  applies it from \<open>2^-1022\<close> on, where at most 1074 scaling steps are needed, and returns
  an infinity when the rounded magnitude is \<open>2^1024\<close> or more; a number too large for the
  \<open>1100\<close> steps comes back unchanged, which is above \<open>2^1024\<close> as well. The sign of
  zero is not modelled.
\<close>

definition round_half_even :: "real \<Rightarrow> int" where
  "round_half_even y =
     (let f = \<lfloor>y\<rfloor>
      in if y - of_int f < 1 / 2 then f
         else if y - of_int f > 1 / 2 then f + 1
         else if even f then f else f + 1)"

fun round_scaled :: "nat \<Rightarrow> real \<Rightarrow> real" where
  "round_scaled 0 x = x"
| "round_scaled (Suc n) x =
     (if x < 2 ^ 52 then round_scaled n (2 * x) / 2
      else if 2 ^ 53 \<le> x then 2 * round_scaled n (x / 2)
      else of_int (round_half_even x))"

definition fl :: "real \<Rightarrow> npfloat" where
  "fl x =
     (let a = \<bar>x\<bar> in
      if a < 1 / 2 ^ 1022
      then Fin (sgn x * (of_int (round_half_even (a * 2 ^ 1074)) / 2 ^ 1074))
      else (let r = round_scaled 1100 a in
            if 2 ^ 1024 \<le> r then (if 0 < x then PInf else NInf)
            else Fin (sgn x * r)))"

text \<open>
  The result of an operation on floats: \<open>np_add\<close>, \<open>np_sub\<close>, \<open>np_mul\<close> and \<open>np_div\<close>
  give the exact result or the special value (Python's floats follow the same IEEE 754
  rules for \<open>+\<close>, \<open>-\<close>, \<open>*\<close> and for \<open>/\<close> by a non-zero number), and \<open>fl_np\<close> rounds
  a finite exact result.
\<close>

fun fl_np :: "npfloat \<Rightarrow> npfloat" where
  "fl_np (Fin x) = fl x"
| "fl_np PInf = PInf"
| "fl_np NInf = NInf"
| "fl_np NaN = NaN"

text \<open>
  An \<open>int\<close> operand of a float operation is converted to a float first: to the nearest
  binary64 number, and with \<open>OverflowError\<close> (int too large to convert to float)
  when that is none. Below \<open>2^53\<close> the conversion is exact.
\<close>

definition py_float :: "nat \<Rightarrow> error + real" where
  "py_float n = (case fl (real n) of Fin y \<Rightarrow> Inr y | _ \<Rightarrow> Inl OverflowError)"

text \<open>
  The two statements that build the grid, with the rounding of each operation:
  \<^verbatim>\<open>
  delta_tau = (max_tau-min_tau) / Ntau_steps
  tau_hypo = min_tau + itau*delta_tau
  \<close>
  The division of a float by the int \<open>Ntau_steps\<close> converts the int, then raises
  \<open>ZeroDivisionError\<close> when it is zero.
\<close>

definition delta_tau_fl :: "real \<Rightarrow> real \<Rightarrow> nat \<Rightarrow> error + npfloat" where
  "delta_tau_fl min_tau max_tau Ntau_steps =
     (case py_float Ntau_steps of
        Inl e \<Rightarrow> Inl e
      | Inr n \<Rightarrow>
          if n = 0 then Inl ZeroDivisionError
          else Inr (fl_np (np_div (fl_np (np_sub (Fin max_tau) (Fin min_tau))) (Fin n))))"

definition tau_hypo_fl :: "real \<Rightarrow> npfloat \<Rightarrow> nat \<Rightarrow> error + npfloat" where
  "tau_hypo_fl min_tau delta itau =
     (case py_float itau of
        Inl e \<Rightarrow> Inl e
      | Inr k \<Rightarrow> Inr (fl_np (np_add (Fin min_tau) (fl_np (np_mul (Fin k) delta)))))"

section \<open>The direct threshold scan (LikelihoodFit)\<close>

text \<open>
  \<^verbatim>\<open>
  ScanChi2 = True        # In addition to fit for minimum, do a scan...

  if (ScanChi2) :
      if (((chi2[0] - chi2_minval) > 1.0) and ((chi2[Ntau_steps] - chi2_minval) > 1.0)) :
          found_lower = False
          found_upper = False
          for itau in range (Ntau_steps+1) :
              if ((not found_lower) and ((chi2[itau] - chi2_minval) < 1.0)) :
                  tau_lower = tau[itau]
                  found_lower = True
              if ((found_lower) and (not found_upper) and ((chi2[itau] - chi2_minval) > 1.0)) :
                  tau_upper = tau[itau]
                  found_upper = True
          print(f"  Chi2 scan gives:   tau = {chi2_minpos:6.4f} + {tau_upper-chi2_minpos:6.4f} - {chi2_minpos-tau_lower:6.4f}")
      else :
          print(f"  Error: Chi2 values do not fulfill requirements for finding minimum and errors!")
  \<close>
  The scan reads the globals \<open>tau\<close>, \<open>chi2\<close>, \<open>chi2_minval\<close> and \<open>chi2_minpos\<close> that
  the grid scanner left: the argument \<open>g\<close>. The variables \<open>tau_lower\<close> and \<open>tau_upper\<close>
  are not assigned before the loop: they are \<open>None\<close> until the loop assigns them, and
  the \<open>print\<close> raises \<open>NameError\<close> when it reads an unassigned one. The three printed
  numbers are the arguments of \<open>Chi2_scan_gives\<close>.
\<close>

definition ScanChi2 :: bool where
  "ScanChi2 = True"

record thr_state =
  found_lower :: bool
  found_upper :: bool
  tau_lower :: "real option"
  tau_upper :: "real option"

definition thr_init :: thr_state where
  "thr_init = \<lparr>found_lower = False, found_upper = False, tau_lower = None, tau_upper = None\<rparr>"

definition thr_body :: "'s scan_state \<Rightarrow> thr_state \<Rightarrow> nat \<Rightarrow> thr_state" where
  "thr_body g st itau =
     (let st1 = (if \<not> found_lower st \<and> chi2 g ! itau - chi2_minval g < 1
                 then st\<lparr>tau_lower := Some (tau g ! itau), found_lower := True\<rparr>
                 else st)
      in if found_lower st1 \<and> \<not> found_upper st1 \<and> chi2 g ! itau - chi2_minval g > 1
         then st1\<lparr>tau_upper := Some (tau g ! itau), found_upper := True\<rparr>
         else st1)"

definition thr_loop :: "'s scan_state \<Rightarrow> nat \<Rightarrow> thr_state" where
  "thr_loop g n = foldl (thr_body g) thr_init [0..<n]"

datatype scan_report = Chi2_scan_gives real real real | Error_requirements | No_scan

definition chi2_scan :: "'s scan_state \<Rightarrow> nat \<Rightarrow> error + scan_report" where
  "chi2_scan g Ntau_steps =
     (if ScanChi2 then
        (if chi2 g ! 0 - chi2_minval g > 1 \<and> chi2 g ! Ntau_steps - chi2_minval g > 1 then
           (let st = thr_loop g (Ntau_steps + 1) in
            case tau_upper st of
              None \<Rightarrow> Inl NameError
            | Some u \<Rightarrow>
               (case tau_lower st of
                  None \<Rightarrow> Inl NameError
                | Some l \<Rightarrow> Inr (Chi2_scan_gives (chi2_minpos g) (u - chi2_minpos g) (chi2_minpos g - l))))
         else Inr Error_requirements)
      else Inr No_scan)"


section \<open>Properties of the parabola models\<close>

lemma asympara_loop_eq:
  "asympara_loop X minval minpos quadlow quadhigh acc =
     acc @ map (\<lambda>x. if x < minpos then minval + quadlow * (x - minpos)\<^sup>2
                     else minval + quadhigh * (x - minpos)\<^sup>2) X"
  by (induction X arbitrary: acc) simp_all

lemma func_asympara_map:
  "func_asympara X minval minpos quadlow quadhigh =
     map (\<lambda>x. if x < minpos then minval + quadlow * (x - minpos)\<^sup>2
               else minval + quadhigh * (x - minpos)\<^sup>2) X"
  by (simp add: func_asympara_def asympara_loop_eq)

lemma asympara_point_isCont:
  fixes minval minpos quadlow quadhigh :: real
  shows "isCont (\<lambda>x. if x < minpos then minval + quadlow * (x - minpos)\<^sup>2
                      else minval + quadhigh * (x - minpos)\<^sup>2) minpos"
proof -
  let ?L = "\<lambda>x. minval + quadlow * (x - minpos)\<^sup>2"
  let ?H = "\<lambda>x. minval + quadhigh * (x - minpos)\<^sup>2"
  have same: "(\<lambda>x. if x < minpos then ?L x else ?H x) = (\<lambda>x. if x \<le> minpos then ?L x else ?H x)"
    by (rule ext) auto
  have cl: "continuous (at_left minpos) ?L"
    by (intro continuous_intros)
  have "isCont ?H minpos"
    by (intro continuous_intros)
  then have "(?H \<longlongrightarrow> ?H minpos) (at minpos)"
    by (simp add: isCont_def)
  then have "(?H \<longlongrightarrow> ?H minpos) (at_right minpos)"
    by (rule filterlim_mono) (simp_all add: at_le)
  then have ch: "(?H \<longlongrightarrow> ?L minpos) (at_right minpos)"
    by simp
  show ?thesis
    unfolding same by (rule isCont_If_ge [OF cl ch])
qed

text \<open>
  C8. For every parameter tuple and every input, \<open>func_asympara\<close> returns one value
  per input: \<open>minval + quadlow*(x-minpos)^2\<close> where \<open>x < minpos\<close> and
  \<open>minval + quadhigh*(x-minpos)^2\<close> where \<open>x \<ge> minpos\<close>. Both branches evaluate to
  \<open>minval\<close> at \<open>x = minpos\<close> and the model is continuous there. With
  \<open>quadlow = quadhigh\<close> it agrees with \<open>func_para\<close> at every point.
\<close>

theorem func_asympara_piecewise:
  "length (func_asympara X minval minpos quadlow quadhigh) = length X
   \<and> (\<forall>i < length X.
        (X ! i < minpos \<longrightarrow>
           func_asympara X minval minpos quadlow quadhigh ! i
             = minval + quadlow * (X ! i - minpos)\<^sup>2)
      \<and> (X ! i \<ge> minpos \<longrightarrow>
           func_asympara X minval minpos quadlow quadhigh ! i
             = minval + quadhigh * (X ! i - minpos)\<^sup>2))
   \<and> minval + quadlow * (minpos - minpos)\<^sup>2 = minval
   \<and> minval + quadhigh * (minpos - minpos)\<^sup>2 = minval
   \<and> func_asympara [minpos] minval minpos quadlow quadhigh = [minval]
   \<and> isCont (\<lambda>x. func_asympara [x] minval minpos quadlow quadhigh ! 0) minpos
   \<and> func_asympara X minval minpos quadhigh quadhigh
       = map (\<lambda>x. func_para x minval minpos quadhigh) X"
proof -
  have "isCont (\<lambda>x. func_asympara [x] minval minpos quadlow quadhigh ! 0) minpos"
    using asympara_point_isCont [of minpos minval quadlow quadhigh]
    by (simp add: func_asympara_map)
  then show ?thesis
    by (simp add: func_asympara_map func_para_def)
qed

theorem func_asympara_piecewise_witness:
  "func_asympara [0, 1, 3] 5 1 2 3 ! 0 = 7
   \<and> func_asympara [0, 1, 3] 5 1 2 3 ! 1 = 5
   \<and> func_asympara [0, 1, 3] 5 1 2 3 ! 2 = 17
   \<and> func_asympara [0, 1, 3] 5 1 3 3 = map (\<lambda>x. func_para x 5 1 3) [0, 1, 3]"
proof -
  note t = func_asympara_piecewise [of "[0, 1, 3]" 5 1 2 3]
  from t have a: "\<forall>i < length [0::real, 1, 3].
        ([0, 1, 3] ! i < (1::real) \<longrightarrow>
           func_asympara [0, 1, 3] 5 1 2 3 ! i = 5 + 2 * ([0, 1, 3] ! i - 1)\<^sup>2)
      \<and> ([0, 1, 3] ! i \<ge> (1::real) \<longrightarrow>
           func_asympara [0, 1, 3] 5 1 2 3 ! i = 5 + 3 * ([0, 1, 3] ! i - 1)\<^sup>2)"
    by blast
  from a have "func_asympara [0, 1, 3] 5 1 2 3 ! 0 = 7" by simp
  moreover from a have "func_asympara [0, 1, 3] 5 1 2 3 ! 1 = 5" by simp
  moreover from a have "func_asympara [0, 1, 3] 5 1 2 3 ! 2 = 17"
    by (simp add: numeral_2_eq_2)
  moreover from t have "func_asympara [0, 1, 3] 5 1 3 3 = map (\<lambda>x. func_para x 5 1 3) [0, 1, 3]"
    by blast
  ultimately show ?thesis by blast
qed

section \<open>Properties of the validation\<close>

text \<open>
  C9. A correlation outside \<open>[-1, 1]\<close> (for example \<open>1.5\<close>) raises \<open>ValueError\<close> at the
  check, with the state exactly as it was before the cells that compute: none of them
  has run. A correlation inside \<open>[-1, 1]\<close> raises nothing and the later cells run.
\<close>

theorem rho12_validation:
  "(\<not> (- 1 \<le> rho12 \<and> rho12 \<le> 1) \<longrightarrow>
      check_rho12 rho12 = Some ValueError
      \<and> error_propagation later rho12 s = (Some ValueError, s))
   \<and> ((- 1 \<le> rho12 \<and> rho12 \<le> 1) \<longrightarrow>
      check_rho12 rho12 = None
      \<and> error_propagation later rho12 s = (None, later rho12 s))"
  by (simp add: check_rho12_def error_propagation_def)

theorem rho12_validation_witness:
  "error_propagation (\<lambda>rho n. Suc n) (3 / 2) (0::nat) = (Some ValueError, 0)
   \<and> error_propagation (\<lambda>rho n. Suc n) (1 / 2) (0::nat) = (None, 1)"
proof -
  have out: "\<not> (- 1 \<le> (3 / 2 :: real) \<and> (3 / 2 :: real) \<le> 1)" by simp
  have inn: "- 1 \<le> (1 / 2 :: real) \<and> (1 / 2 :: real) \<le> 1" by simp
  from out rho12_validation [of "3 / 2" "\<lambda>rho n. Suc n" "0::nat"]
  have "error_propagation (\<lambda>rho n. Suc n) (3 / 2) (0::nat) = (Some ValueError, 0)"
    by blast
  moreover from inn rho12_validation [of "1 / 2" "\<lambda>rho n. Suc n" "0::nat"]
  have "error_propagation (\<lambda>rho n. Suc n) (1 / 2) (0::nat) = (None, 1)"
    by simp
  ultimately show ?thesis by blast
qed

section \<open>Properties of the animation's accumulator lists\<close>

lemma animate_calls_lists:
  "p0_list (animate_calls x y ps st) = p0_list st @ ps
   \<and> chi2_list (animate_calls x y ps st)
       = chi2_list st @ map (\<lambda>p0. calc_chi2 (linear_fn x p0) y (sy_data y)) ps"
  unfolding animate_calls_def
  by (induction ps arbitrary: st) (simp_all add: animate_linear_chi2_fit_def Let_def)

text \<open>
  C10. Every call of \<open>animate_linear_chi2_fit\<close> appends exactly one element to
  \<open>p0_list\<close> (its argument) and exactly one to \<open>chi2_list\<close> (the chi-square of that
  argument on the fixed data). So after any sequence of calls from the empty lists the
  two lists have equal length, \<open>p0_list\<close> is the sequence of arguments, and the i-th
  entry of \<open>chi2_list\<close> is the chi-square of the i-th entry of \<open>p0_list\<close>.
\<close>

theorem animate_appends_one_each:
  "p0_list (animate_linear_chi2_fit x y p0 st) = p0_list st @ [p0]
   \<and> chi2_list (animate_linear_chi2_fit x y p0 st)
       = chi2_list st @ [calc_chi2 (linear_fn x p0) y (sy_data y)]
   \<and> p0_list (animate_calls x y ps anim_init) = ps
   \<and> length (chi2_list (animate_calls x y ps anim_init))
       = length (p0_list (animate_calls x y ps anim_init))
   \<and> (\<forall>i < length (p0_list (animate_calls x y ps anim_init)).
        chi2_list (animate_calls x y ps anim_init) ! i
          = calc_chi2 (linear_fn x (p0_list (animate_calls x y ps anim_init) ! i)) y (sy_data y))"
  by (simp add: animate_calls_lists anim_init_def)
     (simp add: animate_linear_chi2_fit_def Let_def)

theorem animate_appends_one_each_witness:
  "chi2_list (animate_calls [1, 2] [2, 3] [0, 1] anim_init) ! 1 = 2
   \<and> p0_list (animate_calls [1, 2] [2, 3] [0, 1] anim_init) = [0, 1]"
proof -
  note t = animate_appends_one_each [of "[1, 2]" "[2, 3]" 0 anim_init "[0, 1]"]
  from t have p: "p0_list (animate_calls [1, 2] [2, 3] [0, 1] anim_init) = [0, 1]"
    by blast
  from t have "\<forall>i < length (p0_list (animate_calls [1, 2] [2, 3] [0, 1] anim_init)).
        chi2_list (animate_calls [1, 2] [2, 3] [0, 1] anim_init) ! i
          = calc_chi2 (linear_fn [1, 2] (p0_list (animate_calls [1, 2] [2, 3] [0, 1] anim_init) ! i))
              [2, 3] (sy_data [2, 3])"
    by blast
  then have "chi2_list (animate_calls [1, 2] [2, 3] [0, 1] anim_init) ! 1
      = calc_chi2 (linear_fn [1, 2] 1) [2, 3] (sy_data [2, 3])"
    by (simp add: p)
  then have "chi2_list (animate_calls [1, 2] [2, 3] [0, 1] anim_init) ! 1 = 2"
    by (simp add: calc_chi2_def linear_fn_def ones_like_def sy_data_def)
  with p show ?thesis by blast
qed

section \<open>Properties of the grid scanner\<close>

lemma scan_loop_Suc:
  "scan_loop ev a d N s0 (Suc n) = scan_body ev a d (scan_loop ev a d N s0 n) n"
  by (simp add: scan_loop_def)

lemma scan_loop_0: "scan_loop ev a d N s0 0 = scan_init N s0"
  by (simp add: scan_loop_def)


lemma scan_body_logged:
  assumes "n < length (tau st)" "n < length (chi2 st)"
  shows "tau (scan_body (logged f) a d st n) = (tau st)[n := a + real n * d]"
    and "chi2 (scan_body (logged f) a d st n) = (chi2 st)[n := f (a + real n * d)]"
    and "ev_state (scan_body (logged f) a d st n) = ev_state st @ [a + real n * d]"
    and "chi2_minval (scan_body (logged f) a d st n) =
          (if f (a + real n * d) < chi2_minval st then f (a + real n * d) else chi2_minval st)"
    and "chi2_minpos (scan_body (logged f) a d st n) =
          (if f (a + real n * d) < chi2_minval st then a + real n * d else chi2_minpos st)"
  using assms by (simp_all add: scan_body_def Let_def logged_def)

lemma scan_loop_lengths:
  "n \<le> N + 1 \<Longrightarrow>
   length (tau (scan_loop (logged f) a d N [] n)) = N + 1
   \<and> length (chi2 (scan_loop (logged f) a d N [] n)) = N + 1"
proof (induction n)
  case 0
  then show ?case by (simp add: scan_loop_0 scan_init_def)
next
  case (Suc n)
  then show ?case by (simp add: scan_loop_Suc scan_body_logged)
qed

lemma scan_loop_arrays:
  "n \<le> N + 1 \<Longrightarrow> i < n \<Longrightarrow>
   tau (scan_loop (logged f) a d N [] n) ! i = a + real i * d
   \<and> chi2 (scan_loop (logged f) a d N [] n) ! i = f (a + real i * d)"
proof (induction n)
  case 0
  then show ?case by simp
next
  case (Suc n)
  from Suc.prems have n: "n \<le> N + 1" "n < N + 1" by simp_all
  from scan_loop_lengths [OF n(1), of f a d] n(2)
  have len: "n < length (tau (scan_loop (logged f) a d N [] n))"
            "n < length (chi2 (scan_loop (logged f) a d N [] n))"
    by simp_all
  show ?case
  proof (cases "i = n")
    case True
    with len show ?thesis by (simp add: scan_loop_Suc scan_body_logged)
  next
    case False
    with Suc.prems have "i < n" by simp
    with Suc.IH n(1) False len show ?thesis
      by (simp add: scan_loop_Suc scan_body_logged)
  qed
qed

lemma scan_loop_calls:
  "n \<le> N + 1 \<Longrightarrow>
   ev_state (scan_loop (logged f) a d N [] n) = map (\<lambda>i. a + real i * d) [0..<n]"
proof (induction n)
  case 0
  then show ?case by (simp add: scan_loop_0 scan_init_def)
next
  case (Suc n)
  from Suc.prems have n: "n \<le> N + 1" "n < N + 1" by simp_all
  from scan_loop_lengths [OF n(1), of f a d] n(2)
  have len: "n < length (tau (scan_loop (logged f) a d N [] n))"
            "n < length (chi2 (scan_loop (logged f) a d N [] n))"
    by simp_all
  with Suc.IH n(1) show ?case
    by (simp add: scan_loop_Suc scan_body_logged)
qed

lemma scan_loop_min:
  "n \<le> N + 1 \<Longrightarrow>
   (chi2_minval (scan_loop (logged f) a d N [] n) = chi2_minval_init
      \<and> chi2_minpos (scan_loop (logged f) a d N [] n) = chi2_minpos_init
      \<and> (\<forall>i<n. \<not> f (a + real i * d) < chi2_minval_init))
   \<or> (\<exists>m<n. chi2_minval (scan_loop (logged f) a d N [] n) = f (a + real m * d)
        \<and> chi2_minpos (scan_loop (logged f) a d N [] n) = a + real m * d
        \<and> f (a + real m * d) < chi2_minval_init
        \<and> (\<forall>i<n. f (a + real m * d) \<le> f (a + real i * d))
        \<and> (\<forall>i<m. f (a + real m * d) < f (a + real i * d)))"
proof (induction n)
  case 0
  then show ?case by (simp add: scan_loop_0 scan_init_def)
next
  case (Suc n)
  from Suc.prems have n: "n \<le> N + 1" "n < N + 1" by simp_all
  from scan_loop_lengths [OF n(1), of f a d] n(2)
  have len: "n < length (tau (scan_loop (logged f) a d N [] n))"
            "n < length (chi2 (scan_loop (logged f) a d N [] n))"
    by simp_all
  let ?st = "scan_loop (logged f) a d N [] n"
  let ?h = "\<lambda>i. f (a + real i * d)"
  have mv: "chi2_minval (scan_loop (logged f) a d N [] (Suc n)) =
          (if ?h n < chi2_minval ?st then ?h n else chi2_minval ?st)"
    and mp: "chi2_minpos (scan_loop (logged f) a d N [] (Suc n)) =
          (if ?h n < chi2_minval ?st then a + real n * d else chi2_minpos ?st)"
    using len by (simp_all add: scan_loop_Suc scan_body_logged)
  from Suc.IH [OF n(1)] show ?case
  proof
    assume A: "chi2_minval ?st = chi2_minval_init \<and> chi2_minpos ?st = chi2_minpos_init
       \<and> (\<forall>i<n. \<not> ?h i < chi2_minval_init)"
    show ?thesis
    proof (cases "?h n < chi2_minval_init")
      case True
      have "\<forall>i<n. ?h n < ?h i"
        using A True by (metis less_le_trans not_less)
      moreover then have "\<forall>i<Suc n. ?h n \<le> ?h i"
        by (simp add: less_Suc_eq less_imp_le)
      ultimately show ?thesis
        using A True mv mp by (intro disjI2 exI [of _ n]) simp
    next
      case False
      then show ?thesis
        using A mv mp by (intro disjI1) (simp add: less_Suc_eq)
    qed
  next
    assume "\<exists>m<n. chi2_minval ?st = ?h m \<and> chi2_minpos ?st = a + real m * d
        \<and> ?h m < chi2_minval_init \<and> (\<forall>i<n. ?h m \<le> ?h i) \<and> (\<forall>i<m. ?h m < ?h i)"
    then obtain m where m: "m < n" "chi2_minval ?st = ?h m" "chi2_minpos ?st = a + real m * d"
        "?h m < chi2_minval_init" "\<forall>i<n. ?h m \<le> ?h i" "\<forall>i<m. ?h m < ?h i"
      by blast
    show ?thesis
    proof (cases "?h n < ?h m")
      case True
      have b: "\<forall>i<n. ?h n < ?h i"
        using m(5) True by (metis less_le_trans)
      then have c: "\<forall>i<Suc n. ?h n \<le> ?h i"
        by (simp add: less_Suc_eq less_imp_le)
      have e: "?h n < chi2_minval_init"
        using True m(4) by (rule less_trans)
      have "chi2_minval (scan_loop (logged f) a d N [] (Suc n)) = ?h n"
        and "chi2_minpos (scan_loop (logged f) a d N [] (Suc n)) = a + real n * d"
        using mv mp m(2) True by simp_all
      with b c e show ?thesis
        by (intro disjI2 exI [of _ n]) blast
    next
      case False
      then have "\<forall>i<Suc n. ?h m \<le> ?h i"
        using m(5) by (simp add: less_Suc_eq)
      then show ?thesis
        using m False mv mp by (intro disjI2 exI [of _ m]) simp
    qed
  qed
qed


lemma grid_scan_logged:
  assumes "1 \<le> N"
  shows "grid_scan (logged f) a b N []
           = Inr (scan_loop (logged f) a ((b - a) / real N) N [] (N + 1))"
  using assms by (simp add: grid_scan_def delta_tau_def)

text \<open>
  C6 (as amended). For bounds \<open>min_tau < max_tau\<close>, a step count \<open>N \<ge> 1\<close> and an
  evaluator \<open>f\<close>, the scan returns arrays of length \<open>N+1\<close>; the i-th hypothesis value is
  \<open>min_tau + i*(max_tau-min_tau)/N\<close> and the i-th score is \<open>f\<close> of it; the evaluator is
  invoked exactly once per grid point, in order (its call log is the grid, whose values
  are strictly increasing, hence distinct). Provided some score is below the initial
  value \<open>999999.9\<close> of \<open>chi2_minval\<close>, the scan returns the minimum score and the
  hypothesis value of its first occurrence.
\<close>

theorem grid_scan_curve_and_minimum:
  assumes bounds: "min_tau < max_tau" and steps: "1 \<le> N"
  shows "\<exists>st. grid_scan (logged f) min_tau max_tau N [] = Inr st
     \<and> length (tau st) = N + 1 \<and> length (chi2 st) = N + 1
     \<and> (\<forall>i\<le>N. tau st ! i = min_tau + real i * (max_tau - min_tau) / real N)
     \<and> (\<forall>i\<le>N. chi2 st ! i = f (tau st ! i))
     \<and> ev_state st = tau st
     \<and> sorted_wrt (<) (tau st)
     \<and> ((\<exists>i\<le>N. chi2 st ! i < chi2_minval_init) \<longrightarrow>
          (\<exists>m\<le>N. chi2_minval st = chi2 st ! m \<and> chi2_minpos st = tau st ! m
             \<and> (\<forall>i\<le>N. chi2 st ! m \<le> chi2 st ! i)
             \<and> (\<forall>i<m. chi2 st ! m < chi2 st ! i)))"
proof -
  define d where "d = (max_tau - min_tau) / real N"
  define st where "st = scan_loop (logged f) min_tau d N [] (N + 1)"
  from bounds steps have dpos: "0 < d" by (simp add: d_def)
  have run: "grid_scan (logged f) min_tau max_tau N [] = Inr st"
    using steps by (simp add: grid_scan_logged st_def d_def)
  have len: "length (tau st) = N + 1" "length (chi2 st) = N + 1"
    using scan_loop_lengths [of "N + 1" N f min_tau d] by (simp_all add: st_def)
  have arr: "tau st ! i = min_tau + real i * d \<and> chi2 st ! i = f (min_tau + real i * d)"
    if "i \<le> N" for i
    using scan_loop_arrays [of "N + 1" N i f min_tau d] that by (simp add: st_def)
  have calls: "ev_state st = map (\<lambda>i. min_tau + real i * d) [0..<N + 1]"
    using scan_loop_calls [of "N + 1" N f min_tau d] by (simp add: st_def)
  have "tau st = map (\<lambda>i. min_tau + real i * d) [0..<N + 1]"
    using len arr by (intro nth_equalityI) (simp_all add: less_Suc_eq_le del: upt_Suc)
  with calls have log: "ev_state st = tau st" by simp
  have srt: "sorted_wrt (<) (tau st)"
    unfolding sorted_wrt_iff_nth_less
  proof (intro allI impI)
    fix i j assume ij: "i < j" "j < length (tau st)"
    with len have "i \<le> N" "j \<le> N" by simp_all
    with arr have "tau st ! i = min_tau + real i * d" "tau st ! j = min_tau + real j * d"
      by simp_all
    with ij(1) dpos show "tau st ! i < tau st ! j" by simp
  qed
  have mini: "\<exists>m\<le>N. chi2_minval st = chi2 st ! m \<and> chi2_minpos st = tau st ! m
             \<and> (\<forall>i\<le>N. chi2 st ! m \<le> chi2 st ! i) \<and> (\<forall>i<m. chi2 st ! m < chi2 st ! i)"
    if some: "\<exists>i\<le>N. chi2 st ! i < chi2_minval_init"
  proof -
    from some arr have "\<exists>i<N + 1. f (min_tau + real i * d) < chi2_minval_init"
      by (auto simp: less_Suc_eq_le)
    with scan_loop_min [of "N + 1" N f min_tau d]
    obtain m where m: "m < N + 1" "chi2_minval st = f (min_tau + real m * d)"
        "chi2_minpos st = min_tau + real m * d"
        "\<forall>i<N + 1. f (min_tau + real m * d) \<le> f (min_tau + real i * d)"
        "\<forall>i<m. f (min_tau + real m * d) < f (min_tau + real i * d)"
      unfolding st_def by auto
    from m(1) have mN: "m \<le> N" by simp
    have "\<forall>i\<le>N. chi2 st ! m \<le> chi2 st ! i"
      using m(4) arr mN by (simp add: less_Suc_eq_le)
    moreover have "\<forall>i<m. chi2 st ! m < chi2 st ! i"
      using m(5) arr mN by simp
    ultimately show ?thesis
      using m(2,3) arr [OF mN] mN by (intro exI [of _ m]) simp
  qed
  have grid: "\<forall>i\<le>N. tau st ! i = min_tau + real i * (max_tau - min_tau) / real N"
    using arr by (simp add: d_def)
  have vals: "\<forall>i\<le>N. chi2 st ! i = f (tau st ! i)"
    using arr by simp
  from run len grid vals log srt mini show ?thesis
    by (intro exI [of _ st]) blast
qed

text \<open>
  An evaluator whose scores are all above \<open>999999.9\<close>: the scan returns the initial
  values \<open>999999.9\<close> and \<open>0.0\<close>, which are neither a score nor a grid point.
\<close>

theorem grid_scan_sentinel_counterexample:
  "grid_scan (logged (\<lambda>t. 1000000)) 1 2 1 []
     = Inr \<lparr>tau = [1, 2], chi2 = [1000000, 1000000], chi2_minval = 9999999 / 10,
            chi2_minpos = 0, ev_state = [1, 2]\<rparr>"
  by (simp add: grid_scan_def delta_tau_def scan_loop_Suc scan_loop_0 scan_body_def scan_init_def
        logged_def chi2_minval_init_def chi2_minpos_init_def eval_nat_numeral Let_def)

theorem grid_scan_curve_and_minimum_witness:
  "\<exists>st. grid_scan (logged (\<lambda>t. 2 * (t - 1)\<^sup>2)) 0 2 4 [] = Inr st
     \<and> length (chi2 st) = 5 \<and> tau st ! 1 = 1 / 2 \<and> chi2 st ! 1 = 1 / 2 
     \<and> ev_state st = tau st \<and> chi2_minval st = 0 \<and> chi2_minpos st = 1"
proof -
  let ?f = "\<lambda>t::real. 2 * (t - 1)\<^sup>2"
  have h1: "(0::real) < 2" and h2: "1 \<le> (4::nat)" by simp_all
  from grid_scan_curve_and_minimum [OF h1 h2, of ?f]
  obtain st where st: "grid_scan (logged ?f) 0 2 4 [] = Inr st"
     "length (chi2 st) = 4 + 1"
     "\<forall>i\<le>4. tau st ! i = 0 + real i * (2 - 0) / real 4"
     "\<forall>i\<le>4. chi2 st ! i = ?f (tau st ! i)"
     "ev_state st = tau st"
     "(\<exists>i\<le>4. chi2 st ! i < chi2_minval_init) \<longrightarrow>
          (\<exists>m\<le>4. chi2_minval st = chi2 st ! m \<and> chi2_minpos st = tau st ! m
             \<and> (\<forall>i\<le>4. chi2 st ! m \<le> chi2 st ! i)
             \<and> (\<forall>i<m. chi2 st ! m < chi2 st ! i))"
    by blast
  have "(1::nat) \<le> 4" by simp
  with st(3) have "tau st ! 1 = 0 + real 1 * (2 - 0) / real 4" by blast
  then have t1: "tau st ! 1 = 1 / 2" by simp
  have le2: "(2::nat) \<le> 4" by simp
  with st(3) have "tau st ! 2 = 0 + real 2 * (2 - 0) / real 4" by blast
  then have t2: "tau st ! 2 = 1" by simp
  from st(4) le2 have "chi2 st ! 2 = ?f (tau st ! 2)" by blast
  with t2 have c2: "chi2 st ! 2 = 0" by simp
  from st(4) \<open>1 \<le> 4\<close> have c1': "chi2 st ! 1 = ?f (tau st ! 1)" by blast
  have c1: "chi2 st ! 1 = 1 / 2" unfolding c1' t1 by (simp add: power2_eq_square)
  from c2 have "\<exists>i\<le>4. chi2 st ! i < chi2_minval_init"
    by (intro exI [of _ 2]) (simp add: chi2_minval_init_def)
  with st(6) obtain m where m: "m \<le> 4" "chi2_minval st = chi2 st ! m"
     "chi2_minpos st = tau st ! m" "\<forall>i\<le>4. chi2 st ! m \<le> chi2 st ! i"
    by blast
  from m(4) le2 have "chi2 st ! m \<le> chi2 st ! 2" by blast
  with c2 have "chi2 st ! m \<le> 0" by simp
  moreover from st(4) m(1) have cm: "chi2 st ! m = ?f (tau st ! m)" by simp
  ultimately have "(tau st ! m - 1)\<^sup>2 \<le> 0" by simp
  then have "tau st ! m = 1" by simp
  with m cm have "chi2_minval st = 0" "chi2_minpos st = 1" by simp_all
  with st(1,2,5) t1 c1 show ?thesis by (intro exI [of _ st]) simp
qed

section \<open>Properties of the direct threshold scan\<close>

lemma thr_loop_0: "thr_loop g 0 = thr_init"
  by (simp add: thr_loop_def)

lemma thr_loop_Suc: "thr_loop g (Suc n) = thr_body g (thr_loop g n) n"
  by (simp add: thr_loop_def)

lemma thr_loop_phases:
  "(thr_loop g n = thr_init \<and> (\<forall>i<n. \<not> chi2 g ! i - chi2_minval g < 1))
   \<or> (\<exists>j<n. thr_loop g n
          = \<lparr>found_lower = True, found_upper = False, tau_lower = Some (tau g ! j), tau_upper = None\<rparr>
        \<and> chi2 g ! j - chi2_minval g < 1 \<and> (\<forall>i<j. \<not> chi2 g ! i - chi2_minval g < 1)
        \<and> (\<forall>i. j < i \<and> i < n \<longrightarrow> \<not> chi2 g ! i - chi2_minval g > 1))
   \<or> (\<exists>j k. j < k \<and> k < n \<and> thr_loop g n
          = \<lparr>found_lower = True, found_upper = True, tau_lower = Some (tau g ! j),
             tau_upper = Some (tau g ! k)\<rparr>
        \<and> chi2 g ! j - chi2_minval g < 1 \<and> (\<forall>i<j. \<not> chi2 g ! i - chi2_minval g < 1)
        \<and> chi2 g ! k - chi2_minval g > 1 \<and> (\<forall>i. j < i \<and> i < k \<longrightarrow> \<not> chi2 g ! i - chi2_minval g > 1))"
  (is "?P0 n \<or> ?P1 n \<or> ?P2 n")
proof (induction n)
  case 0
  then show ?case by (simp add: thr_loop_0)
next
  case (Suc n)
  from Suc.IH consider (p0) "?P0 n" | (p1) "?P1 n" | (p2) "?P2 n" by blast
  then show ?case
  proof cases
    case p0
    show ?thesis
    proof (cases "chi2 g ! n - chi2_minval g < 1")
      case True
      with p0 have "thr_loop g (Suc n)
          = \<lparr>found_lower = True, found_upper = False, tau_lower = Some (tau g ! n), tau_upper = None\<rparr>"
        by (simp add: thr_loop_Suc thr_body_def thr_init_def)
      with True p0 have "?P1 (Suc n)"
        by (intro exI [of _ n]) simp
      then show ?thesis by blast
    next
      case False
      with p0 have "thr_loop g (Suc n) = thr_init"
        by (simp add: thr_loop_Suc thr_body_def thr_init_def)
      with False p0 have "?P0 (Suc n)"
        by (simp add: less_Suc_eq)
      then show ?thesis by blast
    qed
  next
    case p1
    then obtain j where j: "j < n"
      "thr_loop g n
          = \<lparr>found_lower = True, found_upper = False, tau_lower = Some (tau g ! j), tau_upper = None\<rparr>"
      "chi2 g ! j - chi2_minval g < 1" "\<forall>i<j. \<not> chi2 g ! i - chi2_minval g < 1"
      "\<forall>i. j < i \<and> i < n \<longrightarrow> \<not> chi2 g ! i - chi2_minval g > 1"
      by blast
    show ?thesis
    proof (cases "chi2 g ! n - chi2_minval g > 1")
      case True
      with j(2) have "thr_loop g (Suc n)
          = \<lparr>found_lower = True, found_upper = True, tau_lower = Some (tau g ! j),
             tau_upper = Some (tau g ! n)\<rparr>"
        by (simp add: thr_loop_Suc thr_body_def)
      with True j have "?P2 (Suc n)"
        by (intro exI [of _ j] exI [of _ n]) simp
      then show ?thesis by blast
    next
      case False
      with j(2) have "thr_loop g (Suc n)
          = \<lparr>found_lower = True, found_upper = False, tau_lower = Some (tau g ! j), tau_upper = None\<rparr>"
        by (simp add: thr_loop_Suc thr_body_def)
      with False j have "?P1 (Suc n)"
        by (intro exI [of _ j]) (auto simp: less_Suc_eq)
      then show ?thesis by blast
    qed
  next
    case p2
    then obtain j k where jk: "j < k" "k < n"
      "thr_loop g n
          = \<lparr>found_lower = True, found_upper = True, tau_lower = Some (tau g ! j),
             tau_upper = Some (tau g ! k)\<rparr>"
      "chi2 g ! j - chi2_minval g < 1" "\<forall>i<j. \<not> chi2 g ! i - chi2_minval g < 1"
      "chi2 g ! k - chi2_minval g > 1" "\<forall>i. j < i \<and> i < k \<longrightarrow> \<not> chi2 g ! i - chi2_minval g > 1"
      by blast
    from jk(3) have "thr_loop g (Suc n)
          = \<lparr>found_lower = True, found_upper = True, tau_lower = Some (tau g ! j),
             tau_upper = Some (tau g ! k)\<rparr>"
      by (simp add: thr_loop_Suc thr_body_def)
    with jk have "?P2 (Suc n)"
      by (intro exI [of _ j] exI [of _ k]) simp
    then show ?thesis by blast
  qed
qed


lemma thr_loop_brackets:
  assumes top: "chi2 g ! N - chi2_minval g > 1" and m: "m \<le> N" "chi2 g ! m - chi2_minval g < 1"
  shows "\<exists>j k. j \<le> m \<and> j < k \<and> k \<le> N
     \<and> thr_loop g (N + 1)
          = \<lparr>found_lower = True, found_upper = True, tau_lower = Some (tau g ! j),
             tau_upper = Some (tau g ! k)\<rparr>
     \<and> chi2 g ! j - chi2_minval g < 1 \<and> (\<forall>i<j. \<not> chi2 g ! i - chi2_minval g < 1)
     \<and> chi2 g ! k - chi2_minval g > 1 \<and> (\<forall>i. j < i \<and> i < k \<longrightarrow> \<not> chi2 g ! i - chi2_minval g > 1)"
proof -
  from thr_loop_phases [of g "N + 1"]
  consider (p0) "\<forall>i<N + 1. \<not> chi2 g ! i - chi2_minval g < 1"
    | (p1) j where "j < N + 1" "chi2 g ! j - chi2_minval g < 1"
        "\<forall>i. j < i \<and> i < N + 1 \<longrightarrow> \<not> chi2 g ! i - chi2_minval g > 1"
    | (p2) j k where "j < k" "k < N + 1"
        "thr_loop g (N + 1)
          = \<lparr>found_lower = True, found_upper = True, tau_lower = Some (tau g ! j),
             tau_upper = Some (tau g ! k)\<rparr>"
        "chi2 g ! j - chi2_minval g < 1" "\<forall>i<j. \<not> chi2 g ! i - chi2_minval g < 1"
        "chi2 g ! k - chi2_minval g > 1" "\<forall>i. j < i \<and> i < k \<longrightarrow> \<not> chi2 g ! i - chi2_minval g > 1"
    by blast
  then show ?thesis
  proof cases
    case p0
    with m show ?thesis by auto
  next
    case p1
    from p1(2) top have "j \<noteq> N" by auto
    with p1(1) have "j < N" by simp
    with p1(3) top show ?thesis by auto
  next
    case p2
    have "j \<le> m"
    proof (rule ccontr)
      assume "\<not> j \<le> m"
      then have "m < j" by simp
      with p2(5) m(2) show False by blast
    qed
    with p2 show ?thesis
      by (intro exI [of _ j] exI [of _ k]) simp
  qed
qed

lemma chi2_scan_bracketed:
  assumes "chi2 g ! 0 - chi2_minval g > 1" "chi2 g ! N - chi2_minval g > 1" "m \<le> N" "chi2 g ! m - chi2_minval g < 1"
  shows "\<exists>j k. j \<le> m \<and> j < k \<and> k \<le> N
     \<and> chi2_scan g N = Inr (Chi2_scan_gives (chi2_minpos g) (tau g ! k - chi2_minpos g) (chi2_minpos g - tau g ! j))
     \<and> chi2 g ! j - chi2_minval g < 1 \<and> (\<forall>i<j. \<not> chi2 g ! i - chi2_minval g < 1)
     \<and> chi2 g ! k - chi2_minval g > 1 \<and> (\<forall>i. j < i \<and> i < k \<longrightarrow> \<not> chi2 g ! i - chi2_minval g > 1)"
proof -
  from thr_loop_brackets [OF assms(2-4)]
  obtain j k where jk: "j \<le> m" "j < k" "k \<le> N"
     "thr_loop g (N + 1)
          = \<lparr>found_lower = True, found_upper = True, tau_lower = Some (tau g ! j),
             tau_upper = Some (tau g ! k)\<rparr>"
     "chi2 g ! j - chi2_minval g < 1" "\<forall>i<j. \<not> chi2 g ! i - chi2_minval g < 1"
     "chi2 g ! k - chi2_minval g > 1" "\<forall>i. j < i \<and> i < k \<longrightarrow> \<not> chi2 g ! i - chi2_minval g > 1"
    by blast
  from jk(4) assms(1,2)
  have "chi2_scan g N = Inr (Chi2_scan_gives (chi2_minpos g) (tau g ! k - chi2_minpos g) (chi2_minpos g - tau g ! j))"
    by (simp add: chi2_scan_def ScanChi2_def)
  with jk show ?thesis by blast
qed

lemma chi2_scan_not_bracketed:
  assumes "\<not> (chi2 g ! 0 - chi2_minval g > 1 \<and> chi2 g ! N - chi2_minval g > 1)"
  shows "chi2_scan g N = Inr Error_requirements"
  using assms by (auto simp: chi2_scan_def ScanChi2_def)

lemma Min_nth:
  assumes "length xs = N + 1"
  shows "\<exists>m\<le>N. xs ! m = Min (set xs)"
proof -
  from assms have "set xs \<noteq> {}" by auto
  then have "Min (set xs) \<in> set xs" by (intro Min_in) simp_all
  then obtain m where "m < length xs" "xs ! m = Min (set xs)"
    by (auto simp: in_set_conv_nth)
  with assms show ?thesis by (intro exI [of _ m]) simp
qed

text \<open>
  C2 (as amended). When \<open>chi2_minval\<close> is the minimum of the score curve (what the
  grid scanner leaves when at least one score is below \<open>999999.9\<close>), the threshold
  scan reports crossing values if and only if both boundary scores exceed
  \<open>chi2_minval + 1\<close>; otherwise it reports the error. The two reported crossing values
  \<open>chi2_minpos + (tau_upper - chi2_minpos)\<close> and \<open>chi2_minpos - (chi2_minpos - tau_lower)\<close>
  are points of the computed grid: nothing is extrapolated.
\<close>

theorem chi2_scan_reports_iff:
  assumes len: "length (chi2 g) = N + 1" "length (tau g) = N + 1"
    and mv: "chi2_minval g = Min (set (chi2 g))"
  shows "((\<exists>p q. chi2_scan g N = Inr (Chi2_scan_gives (chi2_minpos g) p q))
            \<longleftrightarrow> (chi2 g ! 0 > chi2_minval g + 1 \<and> chi2 g ! N > chi2_minval g + 1))
       \<and> (\<not> (chi2 g ! 0 > chi2_minval g + 1 \<and> chi2 g ! N > chi2_minval g + 1)
            \<longrightarrow> chi2_scan g N = Inr Error_requirements)
       \<and> (\<forall>p q. chi2_scan g N = Inr (Chi2_scan_gives (chi2_minpos g) p q)
            \<longrightarrow> chi2_minpos g + p \<in> set (tau g) \<and> chi2_minpos g - q \<in> set (tau g))"
proof (cases "chi2 g ! 0 > chi2_minval g + 1 \<and> chi2 g ! N > chi2_minval g + 1")
  case True
  then have b: "chi2 g ! 0 - chi2_minval g > 1" "chi2 g ! N - chi2_minval g > 1" by simp_all
  from Min_nth [OF len(1)] mv obtain m where m: "m \<le> N" "chi2 g ! m = chi2_minval g" by auto
  then have "chi2 g ! m - chi2_minval g < 1" by simp
  from chi2_scan_bracketed [OF b m(1) this]
  obtain j k where jk: "j < k" "k \<le> N"
    "chi2_scan g N = Inr (Chi2_scan_gives (chi2_minpos g) (tau g ! k - chi2_minpos g) (chi2_minpos g - tau g ! j))"
    by blast
  from jk len have "tau g ! k \<in> set (tau g)" "tau g ! j \<in> set (tau g)" by simp_all
  with jk(3) True show ?thesis by simp
next
  case False
  then have "\<not> (chi2 g ! 0 - chi2_minval g > 1 \<and> chi2 g ! N - chi2_minval g > 1)" by auto
  from chi2_scan_not_bracketed [OF this] False show ?thesis by simp
qed

theorem chi2_scan_reports_iff_witness:
  "(\<exists>p q. chi2_scan \<lparr>tau = [0, 1, 2], chi2 = [5, 0, 5], chi2_minval = 0, chi2_minpos = 1,
                       ev_state = [0, 1, 2 :: real]\<rparr> 2
            = Inr (Chi2_scan_gives 1 p q))
   \<and> chi2_scan \<lparr>tau = [0, 1, 2], chi2 = [1, 0, 5], chi2_minval = 0, chi2_minpos = 1,
                 ev_state = [0, 1, 2 :: real]\<rparr> 2
       = Inr Error_requirements"
proof -
  have "(\<exists>p q. chi2_scan \<lparr>tau = [0, 1, 2], chi2 = [5, 0, 5], chi2_minval = 0, chi2_minpos = 1,
                       ev_state = [0, 1, 2 :: real]\<rparr> 2
            = Inr (Chi2_scan_gives 1 p q))"
    using chi2_scan_reports_iff [of "\<lparr>tau = [0, 1, 2], chi2 = [5, 0, 5], chi2_minval = 0,
        chi2_minpos = 1, ev_state = [0, 1, 2 :: real]\<rparr>" 2]
    by simp
  moreover have "chi2_scan \<lparr>tau = [0, 1, 2], chi2 = [1, 0, 5], chi2_minval = 0, chi2_minpos = 1,
                 ev_state = [0, 1, 2 :: real]\<rparr> 2
       = Inr Error_requirements"
    using chi2_scan_reports_iff [of "\<lparr>tau = [0, 1, 2], chi2 = [1, 0, 5], chi2_minval = 0,
        chi2_minpos = 1, ev_state = [0, 1, 2 :: real]\<rparr>" 2]
    by simp
  ultimately show ?thesis by blast
qed

text \<open>
  An evaluator whose scores are all \<open>1000002\<close>, on the grid \<open>1, 2\<close>: the grid scanner
  leaves \<open>chi2_minval = 999999.9\<close>, its initial value, which is not the minimum of the
  curve. Both boundary scores exceed \<open>chi2_minval + 1\<close>, no score is within \<open>1\<close> of
  \<open>chi2_minval\<close>, the loop assigns neither \<open>tau_lower\<close> nor \<open>tau_upper\<close>, and the
  \<open>print\<close> raises \<open>NameError\<close>: the scan reports neither crossing values nor the error
  message.
\<close>

theorem chi2_scan_sentinel_counterexample:
  "grid_scan (logged (\<lambda>t. 1000002)) 1 2 1 []
     = Inr \<lparr>tau = [1, 2], chi2 = [1000002, 1000002], chi2_minval = 9999999 / 10,
            chi2_minpos = 0, ev_state = [1, 2]\<rparr>
   \<and> chi2_scan \<lparr>tau = [1, 2], chi2 = [1000002, 1000002], chi2_minval = 9999999 / 10,
                 chi2_minpos = 0, ev_state = [1, 2 :: real]\<rparr> 1
       = Inl NameError"
  by (simp add: chi2_scan_def ScanChi2_def thr_loop_Suc thr_loop_0 thr_body_def thr_init_def
        grid_scan_def delta_tau_def scan_loop_Suc scan_loop_0 scan_body_def scan_init_def
        logged_def chi2_minval_init_def chi2_minpos_init_def eval_nat_numeral Let_def)

text \<open>
  C1 (as amended). For a score curve over a strictly increasing grid whose boundary
  scores both exceed \<open>chi2_minval + 1\<close>, where \<open>chi2_minval\<close> is the score at index \<open>m\<close>
  and \<open>chi2_minpos\<close> the grid value there: the scan is one pass over the full curve
  from index 0 upward. The reported lower value is the grid point at the first index
  \<open>j\<close> whose score minus \<open>chi2_minval\<close> is below 1.0, and the reported upper value is
  the grid point at the first index \<open>k\<close> after \<open>j\<close> whose score minus \<open>chi2_minval\<close>
  exceeds 1.0. Then \<open>j \<le> m\<close>, so lower \<open>\<le>\<close> minpos, and lower \<open><\<close> upper; and
  minpos \<open><\<close> upper when no score between \<open>j\<close> and \<open>m\<close> exceeds \<open>chi2_minval + 1\<close>.
\<close>

theorem chi2_scan_single_pass:
  assumes len: "length (chi2 g) = N + 1" "length (tau g) = N + 1"
    and grid: "sorted_wrt (<) (tau g)"
    and m: "m \<le> N" "chi2_minval g = chi2 g ! m" "chi2_minpos g = tau g ! m"
    and b: "chi2 g ! 0 > chi2_minval g + 1" "chi2 g ! N > chi2_minval g + 1"
  shows "\<exists>j k. j \<le> m \<and> j < k \<and> k \<le> N
     \<and> chi2_scan g N = Inr (Chi2_scan_gives (chi2_minpos g) (tau g ! k - chi2_minpos g) (chi2_minpos g - tau g ! j))
     \<and> chi2 g ! j - chi2_minval g < 1 \<and> (\<forall>i<j. \<not> chi2 g ! i - chi2_minval g < 1)
     \<and> chi2 g ! k - chi2_minval g > 1 \<and> (\<forall>i. j < i \<and> i < k \<longrightarrow> \<not> chi2 g ! i - chi2_minval g > 1)
     \<and> tau g ! j \<le> chi2_minpos g \<and> tau g ! j < tau g ! k
     \<and> ((\<forall>i. j < i \<and> i \<le> m \<longrightarrow> \<not> chi2 g ! i - chi2_minval g > 1) \<longrightarrow> chi2_minpos g < tau g ! k)"
proof -
  from b have b': "chi2 g ! 0 - chi2_minval g > 1" "chi2 g ! N - chi2_minval g > 1" by simp_all
  from m have "chi2 g ! m - chi2_minval g < 1" by simp
  from chi2_scan_bracketed [OF b' m(1) this]
  obtain j k where jk: "j \<le> m" "j < k" "k \<le> N"
     "chi2_scan g N = Inr (Chi2_scan_gives (chi2_minpos g) (tau g ! k - chi2_minpos g) (chi2_minpos g - tau g ! j))"
     "chi2 g ! j - chi2_minval g < 1" "\<forall>i<j. \<not> chi2 g ! i - chi2_minval g < 1"
     "chi2 g ! k - chi2_minval g > 1" "\<forall>i. j < i \<and> i < k \<longrightarrow> \<not> chi2 g ! i - chi2_minval g > 1"
    by blast
  have mono: "tau g ! i < tau g ! i'" if "i < i'" "i' \<le> N" for i i'
    using grid that len by (simp add: sorted_wrt_iff_nth_less)
  have "tau g ! j \<le> chi2_minpos g"
  proof (cases "j = m")
    case True
    with m show ?thesis by simp
  next
    case False
    with jk(1) have "j < m" by simp
    from mono [OF this m(1)] m show ?thesis by simp
  qed
  moreover have "tau g ! j < tau g ! k"
    using mono jk by simp
  moreover have "chi2_minpos g < tau g ! k" if h: "\<forall>i. j < i \<and> i \<le> m \<longrightarrow> \<not> chi2 g ! i - chi2_minval g > 1"
  proof -
    have "m < k"
    proof (rule ccontr)
      assume "\<not> m < k"
      with jk(2) have "j < k \<and> k \<le> m" by simp
      with h jk(7) show False by blast
    qed
    from mono [OF this jk(3)] m show ?thesis by simp
  qed
  ultimately show ?thesis
    using jk by (intro exI [of _ j] exI [of _ k]) simp
qed

theorem chi2_scan_single_pass_witness:
  "\<exists>j k. j \<le> 2 \<and> j < k \<and> k \<le> 4
     \<and> chi2_scan \<lparr>tau = [0, 1 / 2, 1, 3 / 2, 2], chi2 = [2, 1 / 2, 0, 1 / 2, 2],
           chi2_minval = 0, chi2_minpos = 1, ev_state = [0, 1 / 2, 1, 3 / 2, 2 :: real]\<rparr> 4
         = Inr (Chi2_scan_gives 1 ([0, 1 / 2, 1, 3 / 2, 2] ! k - 1) (1 - [0, 1 / 2, 1, 3 / 2, 2] ! j))
     \<and> [0, 1 / 2, 1, 3 / 2, 2] ! j \<le> (1::real)
     \<and> [0, 1 / 2, 1, 3 / 2, 2] ! j < ([0, 1 / 2, 1, 3 / 2, 2] ! k :: real)"
proof -
  let ?g = "\<lparr>tau = [0, 1 / 2, 1, 3 / 2, 2], chi2 = [2, 1 / 2, 0, 1 / 2, 2],
           chi2_minval = 0, chi2_minpos = 1, ev_state = [0, 1 / 2, 1, 3 / 2, 2 :: real]\<rparr>"
  have "\<exists>j k. j \<le> 2 \<and> j < k \<and> k \<le> 4
     \<and> chi2_scan ?g 4
          = Inr (Chi2_scan_gives (chi2_minpos ?g) (tau ?g ! k - chi2_minpos ?g)
                   (chi2_minpos ?g - tau ?g ! j))
     \<and> chi2 ?g ! j - chi2_minval ?g < 1 \<and> (\<forall>i<j. \<not> chi2 ?g ! i - chi2_minval ?g < 1)
     \<and> chi2 ?g ! k - chi2_minval ?g > 1
     \<and> (\<forall>i. j < i \<and> i < k \<longrightarrow> \<not> chi2 ?g ! i - chi2_minval ?g > 1)
     \<and> tau ?g ! j \<le> chi2_minpos ?g \<and> tau ?g ! j < tau ?g ! k
     \<and> ((\<forall>i. j < i \<and> i \<le> 2 \<longrightarrow> \<not> chi2 ?g ! i - chi2_minval ?g > 1)
           \<longrightarrow> chi2_minpos ?g < tau ?g ! k)"
    by (rule chi2_scan_single_pass [of ?g 4 2]) simp_all
  then show ?thesis by simp blast
qed

text \<open>
  The curve of \<open>5*(tau-1)^2\<close> on the grid \<open>0, 1, 2\<close>, as the grid scanner leaves it:
  the minimum is at \<open>tau = 1\<close>. The reported lower value is \<open>1 - 0 = 1\<close>, the minimum
  position itself, not the first grid point below it whose score exceeds the minimum by
  more than 1 (that is \<open>0\<close>).
\<close>

theorem chi2_scan_outward_counterexample:
  "chi2_scan \<lparr>tau = [0, 1, 2], chi2 = [5, 0, 5], chi2_minval = 0, chi2_minpos = 1,
              ev_state = [0, 1, 2 :: real]\<rparr> 2
     = Inr (Chi2_scan_gives 1 1 0)
   \<and> grid_scan (logged (\<lambda>t. 5 * (t - 1)\<^sup>2)) 0 2 2 []
     = Inr \<lparr>tau = [0, 1, 2], chi2 = [5, 0, 5], chi2_minval = 0, chi2_minpos = 1,
            ev_state = [0, 1, 2]\<rparr>
   \<and> \<not> ((1::real) - 0 < 1) \<and> (1::real) - 0 \<noteq> [0, 1, 2] ! 0"
  by (simp add: chi2_scan_def ScanChi2_def thr_loop_Suc thr_loop_0 thr_body_def thr_init_def
        grid_scan_def delta_tau_def scan_loop_Suc scan_loop_0 scan_body_def scan_init_def
        logged_def chi2_minval_init_def chi2_minpos_init_def eval_nat_numeral Let_def)

section \<open>Properties of the evaluators\<close>


lemma np_add_NaN_right: "np_add x NaN = NaN"
  by (cases x) simp_all

lemma foldl_np_add_NaN: "foldl np_add NaN xs = NaN"
  by (induction xs) simp_all

lemma foldl_np_add_Fin: "foldl np_add (Fin a) (map Fin xs) = Fin (a + sum_list xs)"
  by (induction xs arbitrary: a) (simp_all add: add.assoc)

lemma np_sum_Fin: "np_sum (map Fin xs) = Fin (sum_list xs)"
  by (simp add: np_sum_def foldl_np_add_Fin)

lemma np_sum_NaN:
  assumes "NaN \<in> set xs"
  shows "np_sum xs = NaN"
proof -
  from assms obtain ys zs where "xs = ys @ NaN # zs"
    by (auto simp: in_set_conv_decomp)
  then show ?thesis
    by (simp add: np_sum_def np_add_NaN_right foldl_np_add_NaN)
qed

lemma bin_loop_0: "bin_loop Ntimes edges yExp tau_hypo 0 = (Fin 0, Fin 0)"
  by (simp add: bin_loop_def)

lemma bin_loop_Suc:
  "bin_loop Ntimes edges yExp tau_hypo (Suc n)
     = bin_body Ntimes edges yExp tau_hypo (bin_loop Ntimes edges yExp tau_hypo n) n"
  by (simp add: bin_loop_def)

lemma bin_loop_sums:
  "fst (bin_loop Ntimes edges yExp tau_hypo n)
     = np_sum (map (\<lambda>ibin. chi2_term (yExp ! ibin) (nexp Ntimes edges tau_hypo ibin))
                (filter (\<lambda>ibin. yExp ! ibin > 0) [0..<n]))
   \<and> snd (bin_loop Ntimes edges yExp tau_hypo n)
     = np_sum (map (\<lambda>ibin. bllh_term (yExp ! ibin) (nexp Ntimes edges tau_hypo ibin)) [0..<n])"
proof (induction n)
  case 0
  then show ?case by (simp add: bin_loop_0 np_sum_def)
next
  case (Suc n)
  then show ?case
    by (simp add: bin_loop_Suc bin_body_def Let_def np_sum_def)
qed



lemma sum_list_filter_upt:
  fixes f :: "nat \<Rightarrow> real"
  shows "sum_list (map f (filter P [0..<n])) = (\<Sum>i | i < n \<and> P i. f i)"
proof -
  have "distinct (filter P [0..<n])" by simp
  then have "sum_list (map f (filter P [0..<n])) = sum f (set (filter P [0..<n]))"
    by (rule sum_list_distinct_conv_sum_set)
  also have "set (filter P [0..<n]) = {i. i < n \<and> P i}" by auto
  finally show ?thesis .
qed





text \<open>
  The chi-square of the Gaussian fit has the same form: the sum over the bins with a
  non-zero count of \<open>(nobs - nexp)^2 / nobs\<close>, where the expected count is the value of
  \<open>func_gauss\<close> at the centre of the bin.
\<close>

lemma func_gauss_finite:
  assumes "sigma \<noteq> 0"
  shows "func_gauss binwidth x N mu sigma
     = Fin (N * binwidth / sqrt (2 * pi) / sigma * exp (- (1 / 2) * ((x - mu) / sigma)\<^sup>2))"
  using assms by (simp add: func_gauss_def np_square_def power2_eq_square)

lemma chi2_owncalc_sum:
  assumes "sigma \<noteq> 0"
  shows "chi2_owncalc binwidth bin_edges counts N mu sigma
     = Fin (\<Sum>i | i < length counts \<and> counts ! i > 0.
             (real (counts ! i)
                - N * binwidth / sqrt (2 * pi) / sigma
                    * exp (- (1 / 2) * ((1 / 2 * (bin_edges ! i + bin_edges ! (i + 1)) - mu) / sigma)\<^sup>2))\<^sup>2
             / real (counts ! i))"
proof -
  let ?g = "\<lambda>i. N * binwidth / sqrt (2 * pi) / sigma
                    * exp (- (1 / 2) * ((1 / 2 * (bin_edges ! i + bin_edges ! (i + 1)) - mu) / sigma)\<^sup>2)"
  let ?T = "\<lambda>i. (real (counts ! i) - ?g i)\<^sup>2 / real (counts ! i)"
  have zipped: "zip (x_hist bin_edges counts) (zip (y_hist counts) (sy_hist counts))
      = map (\<lambda>i. (1 / 2 * (bin_edges ! i + bin_edges ! (i + 1)), counts ! i, sqrt (real (counts ! i))))
          (nonzero_bins counts)"
    by (simp add: x_hist_def y_hist_def sy_hist_def zip_map_map zip_same_conv_map)
  let ?c = "\<lambda>i. 1 / 2 * (bin_edges ! i + bin_edges ! (i + 1))"
  let ?G = "\<lambda>xi yi si. np_square (np_div (np_sub (Fin (real yi))
                 (func_gauss binwidth xi N mu sigma)) (Fin si))"
  have tm: "?G (?c i) (counts ! i) (sqrt (real (counts ! i))) = Fin (?T i)"
    if "counts ! i > 0" for i
    using that
    by (simp add: func_gauss_finite [OF assms] np_sub_def np_square_def power_divide
          flip: power2_eq_square)
  have pt: "(case (?c i, counts ! i, sqrt (real (counts ! i))) of (xi, yi, si) \<Rightarrow> ?G xi yi si)
      = Fin (?T i)"
    if "i \<in> set (nonzero_bins counts)" for i
  proof -
    from that have "counts ! i > 0" by (simp add: nonzero_bins_def)
    from tm [OF this] show ?thesis by (simp only: prod.case)
  qed
  have "map (\<lambda>(xi, yi, si). ?G xi yi si)
               (zip (x_hist bin_edges counts) (zip (y_hist counts) (sy_hist counts)))
      = map Fin (map ?T (nonzero_bins counts))"
    unfolding zipped map_map by (rule map_cong [OF refl]) (simp only: o_def pt)
  then have "chi2_owncalc binwidth bin_edges counts N mu sigma
      = Fin (sum_list (map ?T (nonzero_bins counts)))"
    unfolding chi2_owncalc_def by (simp only: np_sum_Fin)
  then show ?thesis
    by (simp only: nonzero_bins_def sum_list_filter_upt)
qed

lemma bllh_term_negative:
  assumes "e < 0"
  shows "bllh_term nobs (Fin e) = NaN"
  using assms by (simp add: bllh_term_def)

lemma bllh_term_zero: "bllh_term nobs (Fin 0) = (if nobs = 0 then Fin 0 else PInf)"
  by (cases nobs) (simp_all add: bllh_term_def)

lemma bllh_term_positive:
  assumes "e > 0"
  shows "bllh_term nobs (Fin e) = Fin (- 2 * ln (exp (- e) * e ^ nobs / fact nobs))"
  using assms by (simp add: bllh_term_def)

text \<open>
  C4 (as amended). The binned-likelihood evaluator accumulates
  \<open>-2 * log(pmf(nobs, nexp))\<close> over every bin, with no exclusion. It makes no check of
  \<open>nexp\<close>: where \<open>nexp < 0\<close> for some bin the score is \<open>nan\<close> (the value of \<open>pmf\<close>
  there); a bin with \<open>nexp = 0\<close> contributes \<open>0\<close> when \<open>nobs = 0\<close> and \<open>+inf\<close> when
  \<open>nobs > 0\<close>; a bin with \<open>nexp > 0\<close> contributes a finite value.
\<close>

theorem bllh_evaluator_sum:
  assumes "length xExp_edges = length yExp + 1"
  shows "bllh_evaluator Ntimes xExp_edges yExp tau_hypo
      = np_sum (map (\<lambda>ibin. np_mul (Fin (- 2))
                        (np_log (poisson_pmf (yExp ! ibin) (nexp Ntimes xExp_edges tau_hypo ibin))))
                 [0..<length yExp])
   \<and> ((\<exists>ibin e. ibin < length yExp \<and> e < 0 \<and> nexp Ntimes xExp_edges tau_hypo ibin = Fin e)
        \<longrightarrow> bllh_evaluator Ntimes xExp_edges yExp tau_hypo = NaN)
   \<and> (\<forall>nobs. np_mul (Fin (- 2)) (np_log (poisson_pmf nobs (Fin 0)))
               = (if nobs = 0 then Fin 0 else PInf))
   \<and> (\<forall>nobs e. e > 0 \<longrightarrow>
         np_mul (Fin (- 2)) (np_log (poisson_pmf nobs (Fin e)))
           = Fin (- 2 * ln (exp (- e) * e ^ nobs / fact nobs)))"
proof -
  let ?terms = "map (\<lambda>ibin. bllh_term (yExp ! ibin) (nexp Ntimes xExp_edges tau_hypo ibin))
                  [0..<length yExp]"
  have sum: "bllh_evaluator Ntimes xExp_edges yExp tau_hypo = np_sum ?terms"
    by (simp add: bllh_evaluator_def bin_loop_sums)
  have nan: "bllh_evaluator Ntimes xExp_edges yExp tau_hypo = NaN"
    if "\<exists>ibin e. ibin < length yExp \<and> e < 0 \<and> nexp Ntimes xExp_edges tau_hypo ibin = Fin e"
  proof -
    from that obtain ibin e where b: "ibin < length yExp" "e < 0"
      "nexp Ntimes xExp_edges tau_hypo ibin = Fin e"
      by blast
    then have "bllh_term (yExp ! ibin) (nexp Ntimes xExp_edges tau_hypo ibin) = NaN"
      by (simp add: bllh_term_negative)
    with b(1) have "NaN \<in> set ?terms"
      by (force simp: image_iff)
    with sum show ?thesis by (simp add: np_sum_NaN)
  qed
  from sum nan bllh_term_zero bllh_term_positive show ?thesis
    unfolding bllh_term_def by blast
qed

theorem bllh_evaluator_sum_witness:
  "bllh_evaluator 1 [0, 1] [0] (- 1) = NaN"
proof -
  have len: "length [0, 1 :: real] = length [0 :: nat] + 1" by simp
  have "nexp 1 [0, 1] (- 1) 0 = Fin (1 - exp 1)"
    by (simp add: nexp_def np_sub_def)
  moreover have "1 - exp 1 < (0::real)" by simp
  ultimately have "\<exists>ibin e. ibin < length [0 :: nat] \<and> e < 0 \<and> nexp 1 [0, 1] (- 1) ibin = Fin e"
    by (intro exI [of _ 0] exI [of _ "1 - exp 1"]) simp
  with bllh_evaluator_sum [OF len, of 1 "- 1"] show ?thesis by blast
qed

text \<open>
  No events (\<open>Ntimes = 0\<close>), one empty bin: \<open>nexp = 0\<close> and the score is the finite
  value \<open>0\<close>, not \<open>nan\<close>.
\<close>

theorem bllh_evaluator_zero_counterexample:
  "nexp 0 [0, 1] 1 0 = Fin 0 \<and> bllh_evaluator 0 [0, 1] [0] 1 = Fin 0"
  by (simp add: nexp_def np_sub_def bllh_evaluator_def bin_loop_Suc bin_loop_0 bin_body_def
        bllh_term_def)

section \<open>Properties of the uncertainty from the curvature\<close>

text \<open>
  C5 (as amended). \<open>err\<close> is \<open>1 / sqrt(quadratic)\<close> when \<open>quadratic > 0\<close>. There is no
  check of the curvature and nothing is raised: \<open>quadratic = 0\<close> gives \<open>+inf\<close> and
  \<open>quadratic < 0\<close> gives \<open>nan\<close>.
\<close>

theorem err_values:
  "err quadratic =
     (if quadratic > 0 then Fin (1 / sqrt quadratic)
      else if quadratic = 0 then PInf
      else NaN)"
  by (simp add: err_def)

text \<open>
  A negative curvature: the value returned is \<open>nan\<close>.
\<close>

theorem err_negative_counterexample: "err (- 1) = NaN \<and> err 0 = PInf"
  by (simp add: err_def)

section \<open>Properties of the grid in binary64 arithmetic\<close>

lemma round_half_even_error: "\<bar>of_int (round_half_even y) - y\<bar> \<le> 1 / 2"
  unfolding round_half_even_def Let_def by (auto simp: abs_if) linarith+

lemma round_half_even_of_int: "round_half_even (of_int j) = j"
  by (simp add: round_half_even_def)

lemma round_scaled_error:
  "0 < x \<Longrightarrow> \<bar>round_scaled n x - x\<bar> \<le> x / 2 ^ 53"
proof (induction n arbitrary: x)
  case 0
  then show ?case by simp
next
  case (Suc n)
  show ?case
  proof (cases "x < 2 ^ 52")
    case True
    from Suc.prems have "0 < 2 * x" by simp
    from Suc.IH [OF this] have "\<bar>round_scaled n (2 * x) - 2 * x\<bar> \<le> 2 * x / 2 ^ 53" .
    then have "\<bar>round_scaled n (2 * x) / 2 - x\<bar> \<le> x / 2 ^ 53"
      by (simp add: abs_if field_simps split: if_splits)
    with True show ?thesis by simp
  next
    case False
    show ?thesis
    proof (cases "2 ^ 53 \<le> x")
      case True
      from Suc.prems have "0 < x / 2" by simp
      from Suc.IH [OF this] have "\<bar>round_scaled n (x / 2) - x / 2\<bar> \<le> x / 2 / 2 ^ 53" .
      then have "\<bar>2 * round_scaled n (x / 2) - x\<bar> \<le> x / 2 ^ 53"
        by (simp add: abs_if field_simps split: if_splits)
      with True False show ?thesis by simp
    next
      case hi: False
      from False have "(1::real) / 2 \<le> x / 2 ^ 53" by simp
      with round_half_even_error [of x]
      have "\<bar>of_int (round_half_even x) - x\<bar> \<le> x / 2 ^ 53" by linarith
      with False hi show ?thesis by simp
    qed
  qed
qed

lemma round_scaled_of_int:
  "0 < j \<Longrightarrow> 2 ^ (52 - n) \<le> (of_int j :: real) \<Longrightarrow> of_int j < (2 ^ 53 :: real)
     \<Longrightarrow> round_scaled n (of_int j) = of_int j"
proof (induction n arbitrary: j)
  case 0
  then show ?case by simp
next
  case (Suc n)
  show ?case
  proof (cases "(of_int j :: real) < 2 ^ 52")
    case True
    have dbl: "2 * (of_int j :: real) = of_int (2 * j)" by simp
    have "(2::real) ^ (52 - n) \<le> 2 * 2 ^ (52 - Suc n)"
    proof (cases "n < 52")
      case True
      then have "52 - n = Suc (52 - Suc n)" by simp
      then show ?thesis by simp
    next
      case False
      then show ?thesis by simp
    qed
    also have "\<dots> \<le> 2 * of_int j" using Suc.prems(2) by simp
    finally have lo: "(2::real) ^ (52 - n) \<le> of_int (2 * j)" by simp
    have hi: "(of_int (2 * j) :: real) < 2 ^ 53" using True by simp
    from Suc.prems(1) have "0 < 2 * j" by simp
    from Suc.IH [OF this lo hi] have "round_scaled n (of_int (2 * j)) = of_int (2 * j)" .
    then have "round_scaled n (2 * of_int j) = 2 * of_int j" by simp
    with True show ?thesis by simp
  next
    case False
    with Suc.prems(3) show ?thesis by (simp add: round_half_even_of_int)
  qed
qed

lemma fl_of_nat:
  assumes "n < 2 ^ 53"
  shows "fl (real n) = Fin (real n)"
proof (cases "n = 0")
  case True
  then show ?thesis by (simp add: fl_def round_half_even_def)
next
  case False
  then have pos: "0 < int n" by simp
  have one: "(1::real) \<le> real n" using False by simp
  have lo: "(2::real) ^ (52 - 1100) \<le> of_int (int n)" using one by simp
  have "real n < real (2 ^ 53)" using assms by (simp only: of_nat_less_iff)
  then have hi: "(of_int (int n) :: real) < 2 ^ 53" by simp
  from round_scaled_of_int [OF pos lo hi]
  have r: "round_scaled 1100 (real n) = real n" by simp
  have small: "\<not> real n < 1 / 2 ^ 1022"
  proof -
    have "(1::real) / 2 ^ 1022 \<le> 1" by simp
    with one show ?thesis by linarith
  qed
  have "real n < 2 ^ 53" using hi by simp
  also have "(2::real) ^ 53 \<le> 2 ^ 1024" by (rule power_increasing) simp_all
  finally have big: "\<not> (2::real) ^ 1024 \<le> real n" by simp
  from False have sg: "sgn (real n) = 1" by simp
  show ?thesis
    unfolding fl_def Let_def using small big r sg by (simp del: of_nat_less_iff)
qed

lemma py_float_exact: "n < 2 ^ 53 \<Longrightarrow> py_float n = Inr (real n)"
  by (simp add: py_float_def fl_of_nat)

lemma sgn_times_error: "\<bar>sgn x * r - x\<bar> \<le> \<bar>r - \<bar>x\<bar>\<bar>" for x r :: real
  by (simp add: sgn_if abs_if)

lemma fl_error:
  assumes "fl x = Fin y"
  shows "\<bar>y - x\<bar> \<le> \<bar>x\<bar> / 2 ^ 53 + 1 / 2 ^ 1075"
proof (cases "\<bar>x\<bar> < 1 / 2 ^ 1022")
  case True
  define P :: real where "P = 2 ^ 1074"
  define k :: real where "k = of_int (round_half_even (\<bar>x\<bar> * P))"
  have P0: "0 < P" by (simp add: P_def)
  have P2: "2 * P = 2 ^ 1075" by (simp add: P_def)
  from assms True have y: "y = sgn x * (k / P)"
    by (simp add: fl_def Let_def k_def P_def)
  have "\<bar>k - \<bar>x\<bar> * P\<bar> \<le> 1 / 2" unfolding k_def by (rule round_half_even_error)
  then have "\<bar>k - \<bar>x\<bar> * P\<bar> / P \<le> 1 / 2 / P" using P0 by (rule divide_right_mono [OF _ less_imp_le])
  moreover have "\<bar>k - \<bar>x\<bar> * P\<bar> / P = \<bar>k / P - \<bar>x\<bar>\<bar>"
  proof -
    have "k / P - \<bar>x\<bar> = (k - \<bar>x\<bar> * P) / P" using P0 by (simp add: field_simps)
    then show ?thesis using P0 by simp
  qed
  moreover have "1 / 2 / P = 1 / 2 ^ 1075" unfolding P2 [symmetric] by simp
  ultimately have "\<bar>k / P - \<bar>x\<bar>\<bar> \<le> 1 / 2 ^ 1075" by simp
  with sgn_times_error [of x "k / P"] have "\<bar>y - x\<bar> \<le> 1 / 2 ^ 1075" unfolding y by linarith
  moreover have "0 \<le> \<bar>x\<bar> / 2 ^ 53" by simp
  ultimately show ?thesis by linarith
next
  case False
  define r where "r = round_scaled 1100 \<bar>x\<bar>"
  from False have "0 < \<bar>x\<bar>"
  proof -
    have "(0::real) < 1 / 2 ^ 1022" by simp
    with False show ?thesis by linarith
  qed
  from round_scaled_error [OF this, of 1100] have re: "\<bar>r - \<bar>x\<bar>\<bar> \<le> \<bar>x\<bar> / 2 ^ 53"
    by (simp add: r_def)
  from assms False have y: "y = sgn x * r"
    by (simp add: fl_def Let_def r_def split: if_splits)
  from sgn_times_error [of x r] re have "\<bar>y - x\<bar> \<le> \<bar>x\<bar> / 2 ^ 53" unfolding y by linarith
  moreover have "(0::real) \<le> 1 / 2 ^ 1075" by simp
  ultimately show ?thesis by linarith
qed

lemma fl_zero: "fl 0 = Fin 0"
  by (simp add: fl_def round_half_even_def)

lemma fl_abs_le:
  assumes "fl x = Fin y"
  shows "\<bar>y\<bar> \<le> (1 + 1 / 2 ^ 53) * \<bar>x\<bar> + 1 / 2 ^ 1075"
proof -
  have "\<bar>y\<bar> \<le> \<bar>x\<bar> + \<bar>y - x\<bar>" by linarith
  also have "\<dots> \<le> \<bar>x\<bar> + (\<bar>x\<bar> / 2 ^ 53 + 1 / 2 ^ 1075)" using fl_error [OF assms] by linarith
  finally show ?thesis by (simp add: algebra_simps)
qed

lemma fl_np_Fin: "fl_np v = Fin y \<Longrightarrow> \<exists>x. v = Fin x \<and> fl x = Fin y"
  by (cases v) simp_all

lemma np_add_Fin: "np_add (Fin a) v = Fin s \<Longrightarrow> \<exists>b. v = Fin b \<and> s = a + b"
  by (cases v) simp_all

lemma np_mul_Fin: "np_mul (Fin a) v = Fin m \<Longrightarrow> \<exists>b. v = Fin b \<and> m = a * b"
  by (cases v) (simp_all split: if_splits)

lemma np_div_Fin: "np_div v (Fin n) = Fin q \<Longrightarrow> n \<noteq> 0 \<Longrightarrow> \<exists>a. v = Fin a \<and> q = a / n"
  by (cases v) (simp_all split: if_splits)

lemma fl_finite:
  assumes "\<bar>x\<bar> \<le> 2 ^ 1023"
  shows "\<exists>y. fl x = Fin y"
proof (cases "\<bar>x\<bar> < 1 / 2 ^ 1022")
  case True
  then have "fl x = Fin (sgn x * (of_int (round_half_even (\<bar>x\<bar> * 2 ^ 1074)) / 2 ^ 1074))"
    unfolding fl_def Let_def by (simp only: if_True)
  then show ?thesis by blast
next
  case False
  define B :: real where "B = 2 ^ 1023"
  define r where "r = round_scaled 1100 \<bar>x\<bar>"
  have B0: "0 < B" by (simp add: B_def)
  have B2: "2 * B = 2 ^ 1024" by (simp add: B_def)
  have xB: "\<bar>x\<bar> \<le> B" using assms by (simp add: B_def)
  have "(0::real) < 1 / 2 ^ 1022" by simp
  with False have "0 < \<bar>x\<bar>" by linarith
  from round_scaled_error [OF this, of 1100] have "r \<le> \<bar>x\<bar> + \<bar>x\<bar> / 2 ^ 53"
    unfolding r_def by linarith
  also have "\<dots> \<le> B + B / 2 ^ 53" using xB by (intro add_mono divide_right_mono) simp_all
  also have "\<dots> < 2 * B" using B0 by (simp add: field_simps)
  finally have "\<not> 2 ^ 1024 \<le> r" unfolding B2 by simp
  with False show ?thesis unfolding fl_def Let_def r_def [symmetric] by simp
qed

lemma grid_fl_magnitude:
  assumes N: "1 \<le> N" and i: "i \<le> N"
    and f1: "fl w = Fin fw" and f2: "fl (fw / real N) = Fin dl"
  shows "\<bar>fw / real N\<bar> \<le> ((1 + 1 / 2 ^ 53) * \<bar>w\<bar> + 1 / 2 ^ 1075) / real N"
    and "\<bar>real i * dl\<bar>
         \<le> (1 + 1 / 2 ^ 53) * ((1 + 1 / 2 ^ 53) * \<bar>w\<bar> + 1 / 2 ^ 1075) + real N * (1 / 2 ^ 1075)"
proof -
  define U :: real where "U = 1 / 2 ^ 53"
  define E :: real where "E = 1 / 2 ^ 1075"
  define n where "n = real N"
  define q where "q = fw / n"
  define X where "X = (1 + U) * \<bar>w\<bar> + E"
  have U0: "0 \<le> U" and E0: "0 \<le> E" by (simp_all add: U_def E_def)
  have X0: "0 \<le> X" using U0 E0 by (simp add: X_def)
  have Npos: "0 < n" using N by (simp add: n_def)
  have iN: "real i \<le> n" using i by (simp add: n_def)
  have i0: "0 \<le> real i" by simp
  have a1: "\<bar>fw\<bar> \<le> X"
    using fl_abs_le [OF f1] by (simp add: U_def E_def X_def)
  have a2: "\<bar>q\<bar> \<le> X / n"
    using a1 Npos by (simp add: q_def divide_right_mono)
  have a3: "\<bar>dl\<bar> \<le> (1 + U) * (X / n) + E"
  proof -
    have "\<bar>dl\<bar> \<le> (1 + U) * \<bar>q\<bar> + E"
      using fl_abs_le [OF f2] by (simp add: q_def n_def U_def E_def)
    also have "\<dots> \<le> (1 + U) * (X / n) + E"
      using a2 U0 by (intro add_right_mono mult_left_mono) simp_all
    finally show ?thesis .
  qed
  have frac: "real i * (X / n) \<le> X"
  proof -
    have "real i * (X / n) = (real i / n) * X" by simp
    also have "\<dots> \<le> 1 * X"
      using iN Npos X0 by (intro mult_right_mono) simp_all
    finally show ?thesis by simp
  qed
  have iE: "real i * E \<le> n * E" using iN E0 by (rule mult_right_mono)
  have a4: "\<bar>real i * dl\<bar> \<le> (1 + U) * X + n * E"
  proof -
    have "\<bar>real i * dl\<bar> = real i * \<bar>dl\<bar>" by (simp add: abs_mult)
    also have "\<dots> \<le> real i * ((1 + U) * (X / n) + E)"
      using a3 i0 by (intro mult_left_mono)
    also have "\<dots> = (1 + U) * (real i * (X / n)) + real i * E" by (simp add: algebra_simps)
    also have "\<dots> \<le> (1 + U) * X + n * E"
      using frac U0 iE by (intro add_mono mult_left_mono) simp_all
    finally show ?thesis .
  qed
  from a2 show "\<bar>fw / real N\<bar> \<le> ((1 + 1 / 2 ^ 53) * \<bar>w\<bar> + 1 / 2 ^ 1075) / real N"
    unfolding q_def X_def U_def E_def n_def .
  from a4 show "\<bar>real i * dl\<bar>
         \<le> (1 + 1 / 2 ^ 53) * ((1 + 1 / 2 ^ 53) * \<bar>w\<bar> + 1 / 2 ^ 1075) + real N * (1 / 2 ^ 1075)"
    unfolding X_def U_def E_def n_def .
qed

lemma grid_fl_chain:
  assumes N: "1 \<le> N" "N < 2 ^ 53" and i: "i \<le> N"
    and run: "delta_tau_fl min_tau max_tau N = Inr delta"
    and fin: "tau_hypo_fl min_tau delta i = Inr (Fin t)"
  shows "\<exists>fw dl p. fl (max_tau - min_tau) = Fin fw \<and> fl (fw / real N) = Fin dl
           \<and> delta = Fin dl
           \<and> fl (real i * dl) = Fin p \<and> fl (min_tau + p) = Fin t"
proof -
  from i N have iN: "i < 2 ^ 53" by simp
  have Nn: "real N \<noteq> 0" using N by simp
  from fin have "fl_np (np_add (Fin min_tau) (fl_np (np_mul (Fin (real i)) delta))) = Fin t"
    by (simp add: tau_hypo_fl_def py_float_exact [OF iN])
  from fl_np_Fin [OF this] obtain s where
    s: "np_add (Fin min_tau) (fl_np (np_mul (Fin (real i)) delta)) = Fin s" and fs: "fl s = Fin t"
    by blast
  from np_add_Fin [OF s] obtain p where
    p: "fl_np (np_mul (Fin (real i)) delta) = Fin p" and sp: "s = min_tau + p" by blast
  from fl_np_Fin [OF p] obtain m where
    m: "np_mul (Fin (real i)) delta = Fin m" and fm: "fl m = Fin p" by blast
  from np_mul_Fin [OF m] obtain dl where dl: "delta = Fin dl" and mi: "m = real i * dl" by blast
  from run Nn have "fl_np (np_div (fl_np (np_sub (Fin max_tau) (Fin min_tau))) (Fin (real N)))
      = delta"
    by (simp add: delta_tau_fl_def py_float_exact [OF N(2)])
  with dl have "fl_np (np_div (fl (max_tau - min_tau)) (Fin (real N))) = Fin dl"
    by (simp add: np_sub_def)
  from fl_np_Fin [OF this] obtain q where
    q: "np_div (fl (max_tau - min_tau)) (Fin (real N)) = Fin q" and fq: "fl q = Fin dl" by blast
  from np_div_Fin [OF q Nn] obtain fw where
    fw: "fl (max_tau - min_tau) = Fin fw" and qf: "q = fw / real N" by blast
  from fw fq fm fs dl show ?thesis unfolding qf mi sp by blast
qed

lemma grid_fl_tolerance:
  assumes N: "1 \<le> N" and i: "i \<le> N"
    and f1: "fl (max_tau - min_tau) = Fin fw"
    and f2: "fl (fw / real N) = Fin dl"
    and f3: "fl (real i * dl) = Fin p"
    and f4: "fl (min_tau + p) = Fin t"
  shows "\<bar>t - (min_tau + real i * (max_tau - min_tau) / real N)\<bar>
         \<le> 5 / 2 ^ 53 * (\<bar>min_tau\<bar> + \<bar>max_tau - min_tau\<bar>) + (real N + 2) / 2 ^ 1074"
proof -
  define U :: real where "U = 1 / 2 ^ 53"
  define E :: real where "E = 1 / 2 ^ 1075"
  define n where "n = real N"
  define w where "w = max_tau - min_tau"
  define W where "W = \<bar>w\<bar>"
  define q where "q = fw / n"
  define d where "d = w / n"
  define X where "X = (1 + U) * W + E"
  have U0: "0 \<le> U" and W0: "0 \<le> W" and E0: "0 \<le> E" by (simp_all add: U_def W_def E_def)
  have X0: "0 \<le> X" using U0 W0 E0 by (simp add: X_def)
  have Npos: "0 < n" using N by (simp add: n_def)
  have iN: "real i \<le> n" using i by (simp add: n_def)
  have i0: "0 \<le> real i" by simp
  have e1: "\<bar>fw - w\<bar> \<le> U * W + E"
    using fl_error [OF f1] by (simp add: w_def W_def U_def E_def)
  have e2: "\<bar>dl - q\<bar> \<le> U * \<bar>q\<bar> + E"
    using fl_error [OF f2] by (simp add: q_def n_def U_def E_def)
  have e3: "\<bar>p - real i * dl\<bar> \<le> U * \<bar>real i * dl\<bar> + E"
    using fl_error [OF f3] by (simp add: U_def E_def)
  have e4: "\<bar>t - (min_tau + p)\<bar> \<le> U * \<bar>min_tau + p\<bar> + E"
    using fl_error [OF f4] by (simp add: U_def E_def)
  have a2: "\<bar>q\<bar> \<le> X / n"
    unfolding q_def X_def W_def w_def U_def E_def n_def
    by (rule grid_fl_magnitude(1) [OF N i f1 f2])
  have frac: "real i * (x / n) \<le> x" if "0 \<le> x" for x
  proof -
    have "real i * (x / n) = (real i / n) * x" by simp
    also have "\<dots> \<le> 1 * x"
      using iN Npos that by (intro mult_right_mono) simp_all
    finally show ?thesis by simp
  qed
  have iE: "real i * E \<le> n * E" using iN E0 by (rule mult_right_mono)
  have a4: "\<bar>real i * dl\<bar> \<le> (1 + U) * X + n * E"
    unfolding X_def W_def w_def U_def E_def n_def
    by (rule grid_fl_magnitude(2) [OF N i f1 f2])
  have a5: "\<bar>p\<bar> \<le> (1 + U) * ((1 + U) * X + n * E) + E"
  proof -
    have "\<bar>p\<bar> \<le> (1 + U) * \<bar>real i * dl\<bar> + E"
      using fl_abs_le [OF f3] by (simp add: U_def E_def)
    also have "\<dots> \<le> (1 + U) * ((1 + U) * X + n * E) + E"
      using a4 U0 by (intro add_right_mono mult_left_mono) simp_all
    finally show ?thesis .
  qed
  have b1: "\<bar>q - d\<bar> \<le> (U * W + E) / n"
  proof -
    have "q - d = (fw - w) / n" by (simp add: q_def d_def diff_divide_distrib)
    then have "\<bar>q - d\<bar> = \<bar>fw - w\<bar> / n" using Npos by simp
    also have "\<dots> \<le> (U * W + E) / n" using e1 Npos by (simp add: divide_right_mono)
    finally show ?thesis .
  qed
  have b2: "\<bar>dl - d\<bar> \<le> (U * X + (U * W + E)) / n + E"
  proof -
    have "\<bar>dl - d\<bar> \<le> \<bar>dl - q\<bar> + \<bar>q - d\<bar>" by linarith
    also have "\<dots> \<le> U * \<bar>q\<bar> + E + (U * W + E) / n" using e2 b1 by linarith
    also have "\<dots> \<le> U * (X / n) + E + (U * W + E) / n"
      using a2 U0 by (intro add_right_mono mult_left_mono) simp_all
    also have "\<dots> = (U * X + (U * W + E)) / n + E"
      by (simp add: add_divide_distrib)
    finally show ?thesis .
  qed
  have b3: "\<bar>real i * dl - real i * d\<bar> \<le> (U * X + (U * W + E)) + n * E"
  proof -
    have "\<bar>real i * dl - real i * d\<bar> = real i * \<bar>dl - d\<bar>"
      by (simp add: abs_mult flip: right_diff_distrib)
    also have "\<dots> \<le> real i * ((U * X + (U * W + E)) / n + E)"
      using b2 i0 by (intro mult_left_mono)
    also have "\<dots> = real i * ((U * X + (U * W + E)) / n) + real i * E"
      by (simp add: algebra_simps)
    also have "\<dots> \<le> (U * X + (U * W + E)) + n * E"
    proof -
      have "0 \<le> U * X + (U * W + E)" using U0 X0 W0 E0 by simp
      from frac [OF this] iE show ?thesis by (intro add_mono)
    qed
    finally show ?thesis .
  qed
  have b4: "\<bar>p - real i * d\<bar>
      \<le> U * ((1 + U) * X + n * E) + E + ((U * X + (U * W + E)) + n * E)"
  proof -
    have "\<bar>p - real i * d\<bar> \<le> \<bar>p - real i * dl\<bar> + \<bar>real i * dl - real i * d\<bar>" by linarith
    also have "\<dots> \<le> U * \<bar>real i * dl\<bar> + E + ((U * X + (U * W + E)) + n * E)"
      using e3 b3 by linarith
    also have "\<dots> \<le> U * ((1 + U) * X + n * E) + E + ((U * X + (U * W + E)) + n * E)"
      using a4 U0 by (intro add_right_mono mult_left_mono) simp_all
    finally show ?thesis .
  qed
  have b5: "\<bar>t - (min_tau + real i * d)\<bar>
      \<le> U * (\<bar>min_tau\<bar> + ((1 + U) * ((1 + U) * X + n * E) + E)) + E
         + (U * ((1 + U) * X + n * E) + E + ((U * X + (U * W + E)) + n * E))"
  proof -
    have "\<bar>t - (min_tau + real i * d)\<bar> \<le> \<bar>t - (min_tau + p)\<bar> + \<bar>p - real i * d\<bar>"
      by linarith
    also have "\<dots> \<le> U * \<bar>min_tau + p\<bar> + E
         + (U * ((1 + U) * X + n * E) + E + ((U * X + (U * W + E)) + n * E))"
      using e4 b4 by linarith
    also have "\<dots> \<le> U * (\<bar>min_tau\<bar> + ((1 + U) * ((1 + U) * X + n * E) + E)) + E
         + (U * ((1 + U) * X + n * E) + E + ((U * X + (U * W + E)) + n * E))"
    proof -
      have "\<bar>min_tau + p\<bar> \<le> \<bar>min_tau\<bar> + ((1 + U) * ((1 + U) * X + n * E) + E)"
        using a5 by linarith
      then show ?thesis
        using U0 by (intro add_right_mono mult_left_mono) simp_all
    qed
    finally show ?thesis .
  qed
  define cW where "cW = U * ((1 + U) * ((1 + U) * (1 + U))) + (U * ((1 + U) * (1 + U)) + (U * (1 + U) + U))"
  define cE where "cE = 3 + U * ((1 + U) * (1 + U)) + U * (1 + U) + 2 * U"
  define cN where "cN = U * (1 + U) + U + 1"
  have cW: "cW \<le> 5 * U" by (simp add: cW_def U_def)
  have cE: "cE \<le> 4" by (simp add: cE_def U_def)
  have cN: "cN \<le> 2" by (simp add: cN_def U_def)
  define nE where "nE = n * E"
  have nE0: "0 \<le> nE" using Npos E0 by (simp add: nE_def)
  have "U * (\<bar>min_tau\<bar> + ((1 + U) * ((1 + U) * X + n * E) + E)) + E
         + (U * ((1 + U) * X + n * E) + E + ((U * X + (U * W + E)) + n * E))
      = U * \<bar>min_tau\<bar> + cW * W + cE * E + cN * nE"
    by (simp add: X_def cW_def cE_def cN_def nE_def algebra_simps)
  also have "\<dots> \<le> U * \<bar>min_tau\<bar> + 5 * U * W + 4 * E + 2 * nE"
    using cW cE cN W0 E0 nE0 by (intro add_mono mult_right_mono) simp_all
  also have "\<dots> \<le> 5 * U * (\<bar>min_tau\<bar> + W) + (4 * E + 2 * nE)"
    using U0 by (simp add: algebra_simps mult_left_mono)
  finally have "U * (\<bar>min_tau\<bar> + ((1 + U) * ((1 + U) * X + n * E) + E)) + E
         + (U * ((1 + U) * X + n * E) + E + ((U * X + (U * W + E)) + n * E))
      \<le> 5 * U * (\<bar>min_tau\<bar> + W) + (4 * E + 2 * nE)" .
  with b5 have "\<bar>t - (min_tau + real i * d)\<bar> \<le> 5 * U * (\<bar>min_tau\<bar> + W) + (4 * E + 2 * nE)"
    by linarith
  moreover have "4 * E + 2 * nE = (n + 2) / 2 ^ 1074"
  proof -
    define Q :: real where "Q = 2 ^ 1074"
    have Q0: "0 < Q" by (simp add: Q_def)
    have "(2::real) ^ 1075 = 2 * Q" by (simp add: Q_def)
    then have eq: "E = 1 / (2 * Q)" unfolding E_def by (rule arg_cong)
    have "4 * (1 / (2 * Q)) + 2 * (n * (1 / (2 * Q))) = (n + 2) / Q"
      using Q0 by (simp add: field_simps)
    then have "4 * E + 2 * nE = (n + 2) / Q"
      unfolding nE_def eq .
    then show ?thesis by (simp only: Q_def)
  qed
  ultimately show ?thesis
    by (simp add: w_def W_def d_def U_def n_def)
qed

lemma grid_fl_finite:
  assumes N: "1 \<le> N" "N < 2 ^ 53" and i: "i \<le> N"
    and lo: "\<bar>min_tau\<bar> \<le> 2 ^ 1021" and hi: "\<bar>max_tau\<bar> \<le> 2 ^ 1021"
  shows "\<exists>dl t. delta_tau_fl min_tau max_tau N = Inr (Fin dl)
           \<and> tau_hypo_fl min_tau (Fin dl) i = Inr (Fin t)"
proof -
  define B :: real where "B = 2 ^ 1021"
  define U :: real where "U = 1 / 2 ^ 53"
  define E :: real where "E = 1 / 2 ^ 1075"
  define n where "n = real N"
  define w where "w = max_tau - min_tau"
  define X where "X = (1 + U) * \<bar>w\<bar> + E"
  have B4: "4 * B = 2 ^ 1023" by (simp add: B_def)
  have B1: "1024 \<le> B"
  proof -
    have "(2::real) ^ 10 \<le> 2 ^ 1021" by (rule power_increasing) simp_all
    then show ?thesis by (simp add: B_def)
  qed
  have U0: "0 \<le> U" and U8: "1 + U \<le> 9 / 8" by (simp_all add: U_def)
  have E0: "0 \<le> E" and E1: "E \<le> 1" by (simp_all add: E_def)
  have n1: "1 \<le> n" using N by (simp add: n_def)
  have iN: "i < 2 ^ 53" using i N by simp
  have nE: "n * E \<le> 1"
  proof -
    have "real N < real (2 ^ 53)" using N(2) by (simp only: of_nat_less_iff)
    then have "n \<le> 2 ^ 53" by (simp add: n_def)
    then have "n * E \<le> 2 ^ 53 * E" using E0 by (rule mult_right_mono)
    also have "\<dots> \<le> 1" by (simp add: E_def)
    finally show ?thesis .
  qed
  have nE0: "0 \<le> n * E" using n1 E0 by simp
  have W: "\<bar>w\<bar> \<le> 2 * B" using lo hi by (simp add: w_def B_def)
  have Xb: "X \<le> 9 / 4 * B + E"
  proof -
    have "(1 + U) * \<bar>w\<bar> \<le> 9 / 8 * (2 * B)"
      using U8 W U0 by (intro mult_mono) simp_all
    then show ?thesis by (simp add: X_def)
  qed
  have X0: "0 \<le> X" using U0 E0 by (simp add: X_def)
  from W B1 have "\<bar>w\<bar> \<le> 2 ^ 1023" unfolding B4 [symmetric] by linarith
  from fl_finite [OF this] obtain fw where f1: "fl w = Fin fw" by blast
  have Xn: "X / n \<le> X"
  proof -
    have "X / n \<le> X / 1" using n1 X0 by (intro divide_left_mono) simp_all
    then show ?thesis by simp
  qed
  have "\<bar>fw / real N\<bar> \<le> 2 ^ 1023"
  proof -
    have "\<bar>fw / real N\<bar> \<le> \<bar>fw\<bar>"
    proof -
      have "\<bar>fw / real N\<bar> = \<bar>fw\<bar> / n" using n1 by (simp add: n_def)
      also have "\<dots> \<le> \<bar>fw\<bar> / 1" using n1 by (intro divide_left_mono) simp_all
      finally show ?thesis by simp
    qed
    also have "\<bar>fw\<bar> \<le> X" using fl_abs_le [OF f1] by (simp add: X_def U_def E_def)
    also have "X \<le> 4 * B" using Xb E1 B1 by linarith
    finally show ?thesis unfolding B4 .
  qed
  from fl_finite [OF this] obtain dl where f2: "fl (fw / real N) = Fin dl" by blast
  have m: "\<bar>real i * dl\<bar> \<le> (1 + U) * X + n * E"
    using grid_fl_magnitude(2) [OF N(1) i f1 f2] by (simp add: X_def U_def E_def n_def)
  have mb: "(1 + U) * X + n * E \<le> 9 / 8 * (9 / 4 * B + E) + 1"
  proof -
    have "(1 + U) * X \<le> 9 / 8 * (9 / 4 * B + E)"
      using U8 Xb U0 X0 by (intro mult_mono) simp_all
    with nE show ?thesis by linarith
  qed
  have mc: "9 / 8 * (9 / 4 * B + E) + 1 \<le> 4 * B" using E1 B1 by argo
  have "\<bar>real i * dl\<bar> \<le> 2 ^ 1023"
    unfolding B4 [symmetric] by (rule order_trans [OF m order_trans [OF mb mc]])
  from fl_finite [OF this] obtain p where f3: "fl (real i * dl) = Fin p" by blast
  have pb: "\<bar>p\<bar> \<le> 9 / 8 * (9 / 8 * (9 / 4 * B + E) + 1) + E"
  proof -
    have "\<bar>p\<bar> \<le> (1 + U) * \<bar>real i * dl\<bar> + E"
      using fl_abs_le [OF f3] by (simp add: U_def E_def)
    also have "(1 + U) * \<bar>real i * dl\<bar> + E \<le> 9 / 8 * (9 / 8 * (9 / 4 * B + E) + 1) + E"
    proof -
      have "\<bar>real i * dl\<bar> \<le> 9 / 8 * (9 / 4 * B + E) + 1" by (rule order_trans [OF m mb])
      with U8 U0 show ?thesis by (intro add_right_mono mult_mono) simp_all
    qed
    finally show ?thesis .
  qed
  have "\<bar>min_tau + p\<bar> \<le> 2 ^ 1023"
  proof -
    have "\<bar>min_tau\<bar> \<le> B" using lo by (simp add: B_def)
    moreover have "B + (9 / 8 * (9 / 8 * (9 / 4 * B + E) + 1) + E) \<le> 4 * B"
      using E1 B1 by argo
    ultimately have "\<bar>min_tau + p\<bar> \<le> 4 * B" using pb by linarith
    then show ?thesis unfolding B4 .
  qed
  from fl_finite [OF this] obtain t where f4: "fl (min_tau + p) = Fin t" by blast
  have Nn: "real N \<noteq> 0" using N by simp
  have "delta_tau_fl min_tau max_tau N = Inr (Fin dl)"
    using f1 f2 Nn by (simp add: delta_tau_fl_def py_float_exact [OF N(2)] np_sub_def w_def)
  moreover have "tau_hypo_fl min_tau (Fin dl) i = Inr (Fin t)"
    using f3 f4 by (simp add: tau_hypo_fl_def py_float_exact [OF iN])
  ultimately show ?thesis by blast
qed

lemma tau_hypo_fl_first:
  assumes "fl min_tau = Fin min_tau"
  shows "tau_hypo_fl min_tau (Fin d) 0 = Inr (Fin min_tau)"
proof -
  have "py_float 0 = Inr 0" by (simp add: py_float_def fl_zero)
  then show ?thesis using assms by (simp add: tau_hypo_fl_def fl_zero)
qed

lemma twice_tolerance:
  "2 * (5 / P * a + (n + 2) / Q) = 10 / P * a + (2 * n + 4) / Q" for P a n Q :: real
  by (simp add: algebra_simps add_divide_distrib)

text \<open>
  The grid from \<open>0.5\<close> to \<open>2.0\<close> in \<open>47\<close> steps, evaluated: \<open>delta_tau\<close> is
  \<open>1.5/47\<close> rounded, \<open>47*delta_tau\<close> rounds to \<open>1.5 - 2^-52\<close>, and the last grid
  value is \<open>2 - 2^-52\<close>.
\<close>

lemma fl_half: "fl (1 / 2) = Fin (1 / 2)"
  by (simp add: fl_def Let_def numeral_eq_Suc round_half_even_def)

lemma grid_example_delta:
  "delta_tau_fl (1 / 2) 2 47 = Inr (Fin (4599420896037953 / 2 ^ 57))"
proof -
  have pf: "py_float 47 = Inr 47" using py_float_exact [of 47] by simp
  show ?thesis
    unfolding delta_tau_fl_def pf
    by (simp add: np_sub_def fl_def Let_def numeral_eq_Suc round_half_even_def)
qed

lemma grid_example_last:
  "tau_hypo_fl (1 / 2) (Fin (4599420896037953 / 2 ^ 57)) 47 = Inr (Fin (2 - 1 / 2 ^ 52))"
proof -
  have pf: "py_float 47 = Inr 47" using py_float_exact [of 47] by simp
  show ?thesis
    unfolding tau_hypo_fl_def pf
    by (simp add: fl_def Let_def numeral_eq_Suc round_half_even_def)
qed

text \<open>
  The grid from \<open>-2^1023\<close> to \<open>2^1023\<close> in \<open>2\<close> steps: the subtraction overflows,
  \<open>delta_tau\<close> is \<open>inf\<close> and the first grid value \<open>min_tau + 0*inf\<close> is \<open>nan\<close>.
\<close>

lemma grid_example_overflow:
  "delta_tau_fl (- (2 ^ 1023)) (2 ^ 1023) 2 = Inr PInf
   \<and> tau_hypo_fl (- (2 ^ 1023)) PInf 0 = Inr NaN"
proof -
  have pf: "py_float 2 = Inr 2" using py_float_exact [of 2] by simp
  have p0: "py_float 0 = Inr 0" using py_float_exact [of 0] by simp
  have "delta_tau_fl (- (2 ^ 1023)) (2 ^ 1023) 2 = Inr PInf"
    unfolding delta_tau_fl_def pf
    by (simp add: np_sub_def fl_def Let_def numeral_eq_Suc round_half_even_def)
  moreover have "tau_hypo_fl (- (2 ^ 1023)) PInf 0 = Inr NaN"
    unfolding tau_hypo_fl_def p0 by simp
  ultimately show ?thesis by (rule conjI)
qed

text \<open>
  C7 (as amended). For every grid of \<open>N+1\<close> values with \<open>1 \<le> N < 2^53\<close> built from a
  binary64 number \<open>min_tau\<close>, \<open>delta_tau\<close> is computed without an exception, and with
  \<open>tol = 5 * 2^-53 * (|min_tau| + |max_tau - min_tau|) + (N + 2) * 2^-1074\<close>:
  when \<open>delta_tau\<close> is finite, the first grid value equals \<open>min_tau\<close> exactly; every
  finite grid value is within \<open>tol\<close> of \<open>min_tau + i*(max_tau-min_tau)/N\<close>, so the
  spacing between consecutive finite grid values is the constant \<open>(max_tau-min_tau)/N\<close>
  within twice \<open>tol\<close>, and a finite last grid value equals \<open>max_tau\<close> within \<open>tol\<close>;
  when \<open>|min_tau|\<close> and \<open>|max_tau|\<close> are at most \<open>2^1021\<close>, \<open>delta_tau\<close> and every
  grid value are finite. In exact arithmetic the spacing is exactly
  \<open>(max_tau-min_tau)/N\<close> and the last value is exactly \<open>max_tau\<close>.
\<close>

theorem grid_spacing_tolerance:
  assumes steps: "1 \<le> N" "N < 2 ^ 53" and repr: "fl min_tau = Fin min_tau"
  shows "(\<exists>delta. delta_tau_fl min_tau max_tau N = Inr delta
       \<and> (\<forall>d. delta = Fin d \<longrightarrow> tau_hypo_fl min_tau delta 0 = Inr (Fin min_tau))
       \<and> (\<forall>i\<le>N. \<forall>t. tau_hypo_fl min_tau delta i = Inr (Fin t) \<longrightarrow>
             \<bar>t - (min_tau + real i * (max_tau - min_tau) / real N)\<bar>
               \<le> 5 / 2 ^ 53 * (\<bar>min_tau\<bar> + \<bar>max_tau - min_tau\<bar>) + (real N + 2) / 2 ^ 1074)
       \<and> (\<forall>i<N. \<forall>t t'. tau_hypo_fl min_tau delta i = Inr (Fin t)
                         \<and> tau_hypo_fl min_tau delta (Suc i) = Inr (Fin t') \<longrightarrow>
             \<bar>t' - t - (max_tau - min_tau) / real N\<bar>
               \<le> 10 / 2 ^ 53 * (\<bar>min_tau\<bar> + \<bar>max_tau - min_tau\<bar>) + (2 * real N + 4) / 2 ^ 1074)
       \<and> (\<forall>t. tau_hypo_fl min_tau delta N = Inr (Fin t) \<longrightarrow>
             \<bar>t - max_tau\<bar>
               \<le> 5 / 2 ^ 53 * (\<bar>min_tau\<bar> + \<bar>max_tau - min_tau\<bar>) + (real N + 2) / 2 ^ 1074)
       \<and> (\<bar>min_tau\<bar> \<le> 2 ^ 1021 \<and> \<bar>max_tau\<bar> \<le> 2 ^ 1021 \<longrightarrow>
             (\<exists>d. delta = Fin d)
             \<and> (\<forall>i\<le>N. \<exists>t. tau_hypo_fl min_tau delta i = Inr (Fin t))))
   \<and> (\<exists>st. grid_scan (logged f) min_tau max_tau N [] = Inr st
       \<and> tau st ! 0 = min_tau \<and> tau st ! N = max_tau
       \<and> (\<forall>i<N. tau st ! Suc i - tau st ! i = (max_tau - min_tau) / real N))"
proof -
  define delta where
    "delta = fl_np (np_div (fl_np (np_sub (Fin max_tau) (Fin min_tau))) (Fin (real N)))"
  define tol where
    "tol = 5 / 2 ^ 53 * (\<bar>min_tau\<bar> + \<bar>max_tau - min_tau\<bar>) + (real N + 2) / 2 ^ 1074"
  let ?e = "\<lambda>i. min_tau + real i * (max_tau - min_tau) / real N"
  from steps have Npos: "0 < real N" by simp
  then have Nn: "real N \<noteq> 0" by simp
  have run: "delta_tau_fl min_tau max_tau N = Inr delta"
    using Nn by (simp add: delta_tau_fl_def py_float_exact [OF steps(2)] delta_def)
  have first: "tau_hypo_fl min_tau delta 0 = Inr (Fin min_tau)" if "delta = Fin d" for d
    unfolding that by (rule tau_hypo_fl_first [OF repr])
  have near: "\<bar>t - ?e i\<bar> \<le> tol"
    if "i \<le> N" and "tau_hypo_fl min_tau delta i = Inr (Fin t)" for i t
  proof -
    from grid_fl_chain [OF steps that(1) run that(2)]
    obtain fw dl p where c: "fl (max_tau - min_tau) = Fin fw" "fl (fw / real N) = Fin dl"
      "fl (real i * dl) = Fin p" "fl (min_tau + p) = Fin t"
      by blast
    from grid_fl_tolerance [OF steps(1) that(1) c] show ?thesis
      unfolding tol_def .
  qed
  have step: "\<bar>t' - t - (max_tau - min_tau) / real N\<bar> \<le> 2 * tol"
    if "i < N" and "tau_hypo_fl min_tau delta i = Inr (Fin t)"
      and "tau_hypo_fl min_tau delta (Suc i) = Inr (Fin t')" for i t t'
  proof -
    from that(1) have le: "Suc i \<le> N" "i \<le> N" by simp_all
    define A where "A = t' - ?e (Suc i)"
    define B where "B = t - ?e i"
    from near [OF le(1) that(3)] near [OF le(2) that(2)]
    have "\<bar>A\<bar> \<le> tol" "\<bar>B\<bar> \<le> tol" by (simp_all add: A_def B_def)
    then have AB: "\<bar>A - B\<bar> \<le> 2 * tol" by linarith
    have "?e (Suc i) - ?e i = (max_tau - min_tau) / real N"
      using Npos by (simp add: field_simps)
    then have "t' - t - (max_tau - min_tau) / real N = A - B"
      unfolding A_def B_def by linarith
    with AB show ?thesis by simp
  qed
  have eN: "?e N = max_tau" using Npos by simp
  have last: "\<bar>t - max_tau\<bar> \<le> tol" if "tau_hypo_fl min_tau delta N = Inr (Fin t)" for t
    using near [OF le_refl that] unfolding eN .
  have finite: "(\<exists>d. delta = Fin d) \<and> (\<forall>i\<le>N. \<exists>t. tau_hypo_fl min_tau delta i = Inr (Fin t))"
    if b: "\<bar>min_tau\<bar> \<le> 2 ^ 1021 \<and> \<bar>max_tau\<bar> \<le> 2 ^ 1021"
  proof -
    from b have lo: "\<bar>min_tau\<bar> \<le> 2 ^ 1021" and hi: "\<bar>max_tau\<bar> \<le> 2 ^ 1021" by blast+
    have each: "(\<exists>d. delta = Fin d) \<and> (\<exists>t. tau_hypo_fl min_tau delta i = Inr (Fin t))"
      if "i \<le> N" for i
    proof -
      from grid_fl_finite [OF steps that lo hi] obtain dl t where
        "delta_tau_fl min_tau max_tau N = Inr (Fin dl)"
        "tau_hypo_fl min_tau (Fin dl) i = Inr (Fin t)"
        by blast
      with run have "delta = Fin dl" "tau_hypo_fl min_tau delta i = Inr (Fin t)" by simp_all
      then show ?thesis by blast
    qed
    from each [OF le_refl] each show ?thesis by blast
  qed
  have tol2: "2 * tol
      = 10 / 2 ^ 53 * (\<bar>min_tau\<bar> + \<bar>max_tau - min_tau\<bar>) + (2 * real N + 4) / 2 ^ 1074"
    unfolding tol_def by (rule twice_tolerance)
  have fl_part: "\<exists>delta. delta_tau_fl min_tau max_tau N = Inr delta
       \<and> (\<forall>d. delta = Fin d \<longrightarrow> tau_hypo_fl min_tau delta 0 = Inr (Fin min_tau))
       \<and> (\<forall>i\<le>N. \<forall>t. tau_hypo_fl min_tau delta i = Inr (Fin t) \<longrightarrow>
             \<bar>t - ?e i\<bar>
               \<le> 5 / 2 ^ 53 * (\<bar>min_tau\<bar> + \<bar>max_tau - min_tau\<bar>) + (real N + 2) / 2 ^ 1074)
       \<and> (\<forall>i<N. \<forall>t t'. tau_hypo_fl min_tau delta i = Inr (Fin t)
                         \<and> tau_hypo_fl min_tau delta (Suc i) = Inr (Fin t') \<longrightarrow>
             \<bar>t' - t - (max_tau - min_tau) / real N\<bar>
               \<le> 10 / 2 ^ 53 * (\<bar>min_tau\<bar> + \<bar>max_tau - min_tau\<bar>) + (2 * real N + 4) / 2 ^ 1074)
       \<and> (\<forall>t. tau_hypo_fl min_tau delta N = Inr (Fin t) \<longrightarrow>
             \<bar>t - max_tau\<bar>
               \<le> 5 / 2 ^ 53 * (\<bar>min_tau\<bar> + \<bar>max_tau - min_tau\<bar>) + (real N + 2) / 2 ^ 1074)
       \<and> (\<bar>min_tau\<bar> \<le> 2 ^ 1021 \<and> \<bar>max_tau\<bar> \<le> 2 ^ 1021 \<longrightarrow>
             (\<exists>d. delta = Fin d)
             \<and> (\<forall>i\<le>N. \<exists>t. tau_hypo_fl min_tau delta i = Inr (Fin t)))"
    using run first near step last finite unfolding tol2 unfolding tol_def
    by (intro exI [of _ delta]) blast
  define d where "d = (max_tau - min_tau) / real N"
  define st where "st = scan_loop (logged f) min_tau d N [] (N + 1)"
  have exact: "tau st ! i = min_tau + real i * d" if "i \<le> N" for i
    using scan_loop_arrays [of "N + 1" N i f min_tau d] that
    by (simp add: st_def)
  have "grid_scan (logged f) min_tau max_tau N [] = Inr st"
    using steps by (simp add: grid_scan_logged st_def d_def)
  moreover have "tau st ! 0 = min_tau" using exact [of 0] by simp
  moreover have "tau st ! N = max_tau" using exact [of N] Npos by (simp add: d_def)
  moreover have "\<forall>i<N. tau st ! Suc i - tau st ! i = (max_tau - min_tau) / real N"
  proof (intro allI impI)
    fix i assume "i < N"
    then have "Suc i \<le> N" "i \<le> N" by simp_all
    from exact [OF this(1)] exact [OF this(2)]
    have "tau st ! Suc i - tau st ! i = d"
      by (simp add: algebra_simps)
    then show "tau st ! Suc i - tau st ! i = (max_tau - min_tau) / real N"
      by (simp add: d_def)
  qed
  ultimately have ex_part: "\<exists>st. grid_scan (logged f) min_tau max_tau N [] = Inr st
       \<and> tau st ! 0 = min_tau \<and> tau st ! N = max_tau
       \<and> (\<forall>i<N. tau st ! Suc i - tau st ! i = (max_tau - min_tau) / real N)"
    by blast
  from fl_part ex_part show ?thesis
    by (rule conjI)
qed

theorem grid_spacing_tolerance_witness:
  "delta_tau_fl (1 / 2) 2 47 = Inr (Fin (4599420896037953 / 2 ^ 57))
   \<and> tau_hypo_fl (1 / 2) (Fin (4599420896037953 / 2 ^ 57)) 0 = Inr (Fin (1 / 2))
   \<and> tau_hypo_fl (1 / 2) (Fin (4599420896037953 / 2 ^ 57)) 47 = Inr (Fin (2 - 1 / 2 ^ 52))
   \<and> \<bar>(2 - 1 / 2 ^ 52) - (2::real)\<bar>
       \<le> 5 / 2 ^ 53 * (\<bar>1 / 2\<bar> + \<bar>2 - 1 / 2\<bar>) + (real 47 + 2) / 2 ^ 1074
   \<and> (\<exists>t. tau_hypo_fl (1 / 2) (Fin (4599420896037953 / 2 ^ 57)) 23 = Inr (Fin t))"
proof -
  have h1: "1 \<le> (47::nat)" and h2: "(47::nat) < 2 ^ 53" by simp_all
  from grid_spacing_tolerance [OF h1 h2 fl_half, of 2 "\<lambda>t. t"]
  obtain delta where run: "delta_tau_fl (1 / 2) 2 47 = Inr delta"
    and first: "\<forall>d. delta = Fin d \<longrightarrow> tau_hypo_fl (1 / 2) delta 0 = Inr (Fin (1 / 2))"
    and last: "\<forall>t. tau_hypo_fl (1 / 2) delta 47 = Inr (Fin t) \<longrightarrow>
             \<bar>t - 2\<bar> \<le> 5 / 2 ^ 53 * (\<bar>1 / 2\<bar> + \<bar>2 - 1 / 2\<bar>) + (real 47 + 2) / 2 ^ 1074"
    and finite: "\<bar>1 / 2 :: real\<bar> \<le> 2 ^ 1021 \<and> \<bar>2 :: real\<bar> \<le> 2 ^ 1021 \<longrightarrow>
             (\<exists>d. delta = Fin d)
             \<and> (\<forall>i\<le>47. \<exists>t. tau_hypo_fl (1 / 2) delta i = Inr (Fin t))"
    by blast
  from run have delta: "delta = Fin (4599420896037953 / 2 ^ 57)"
    unfolding grid_example_delta by simp
  have b1: "\<bar>1 / 2 :: real\<bar> \<le> 2 ^ 1021"
  proof -
    have "(1::real) \<le> 2 ^ 1021" by (rule one_le_power) simp
    then show ?thesis by simp
  qed
  have b2: "\<bar>2 :: real\<bar> \<le> 2 ^ 1021"
  proof -
    have "(2::real) ^ 1 \<le> 2 ^ 1021" by (rule power_increasing) simp_all
    then show ?thesis by simp
  qed
  have le: "(23::nat) \<le> 47" by simp
  from finite b1 b2 have "\<forall>i\<le>47. \<exists>t. tau_hypo_fl (1 / 2) delta i = Inr (Fin t)" by blast
  with le have mid: "\<exists>t. tau_hypo_fl (1 / 2) delta 23 = Inr (Fin t)" by blast
  from first delta have f: "tau_hypo_fl (1 / 2) delta 0 = Inr (Fin (1 / 2))" by blast
  from last grid_example_last delta
  have l: "\<bar>(2 - 1 / 2 ^ 52) - (2::real)\<bar>
       \<le> 5 / 2 ^ 53 * (\<bar>1 / 2\<bar> + \<bar>2 - 1 / 2\<bar>) + (real 47 + 2) / 2 ^ 1074"
    by blast
  from grid_example_delta f grid_example_last l mid show ?thesis
    unfolding delta by blast
qed

text \<open>
  The grid from \<open>0.5\<close> to \<open>2.0\<close> in \<open>47\<close> steps: the last grid value
  \<open>0.5 + 47*delta_tau\<close> is \<open>2 - 2^-52\<close>, not \<open>2.0\<close>. The grid from \<open>-2^1023\<close> to
  \<open>2^1023\<close> in \<open>2\<close> steps: the first grid value is \<open>nan\<close>, not \<open>min_tau\<close>.
\<close>

theorem grid_last_value_counterexample:
  "delta_tau_fl (1 / 2) 2 47 = Inr (Fin (4599420896037953 / 2 ^ 57))
   \<and> tau_hypo_fl (1 / 2) (Fin (4599420896037953 / 2 ^ 57)) 47 = Inr (Fin (2 - 1 / 2 ^ 52))
   \<and> (2::real) - 1 / 2 ^ 52 \<noteq> 2
   \<and> delta_tau_fl (- (2 ^ 1023)) (2 ^ 1023) 2 = Inr PInf
   \<and> tau_hypo_fl (- (2 ^ 1023)) PInf 0 = Inr NaN"
proof -
  have "(2::real) - 1 / 2 ^ 52 \<noteq> 2" by simp
  with grid_example_delta grid_example_last grid_example_overflow show ?thesis by blast
qed

end
